theory Spec2Isabelle
  imports Main "HOL-Library.Multiset"
begin

section \<open>Values, errors and promises\<close>

text \<open>
  A JavaScript exception as the code inspects it: \<^verbatim>\<open>e.name\<close>, \<^verbatim>\<open>e.code\<close> (absent on a
  plain \<^verbatim>\<open>Error\<close>) and its message.
\<close>

record js_error =
  err_name :: string
  err_code :: "int option"
  err_message :: string

definition new_Error :: "string \<Rightarrow> js_error" where
  "new_Error msg = \<lparr>err_name = ''Error'', err_code = None, err_message = msg\<rparr>"

text \<open>
  The state of a promise when the operation that returned it has run as far as it can:
  resolved with a value, rejected with an error, or still pending. For an operation run to
  completion, \<open>Pending\<close> is a promise that never settles.
\<close>

datatype 'a promise = Resolved 'a | Rejected js_error | Pending

text \<open>\<^verbatim>\<open>await m\<close> followed by the continuation \<open>k\<close>, inside an async function.\<close>

definition await :: "'a promise \<times> 's \<Rightarrow> ('a \<Rightarrow> 's \<Rightarrow> 'b promise \<times> 's) \<Rightarrow> 'b promise \<times> 's" where
  "await m k =
     (case m of
        (Resolved v, s) \<Rightarrow> k v s
      | (Rejected e, s) \<Rightarrow> (Rejected e, s)
      | (Pending, s) \<Rightarrow> (Pending, s))"

text \<open>An async function that returns the result of a synchronous call: a throw rejects.\<close>

definition of_sync :: "(js_error + 'a) \<times> 's \<Rightarrow> 'a promise \<times> 's" where
  "of_sync r = (case r of (Inl e, s) \<Rightarrow> (Rejected e, s) | (Inr v, s) \<Rightarrow> (Resolved v, s))"

text \<open>
  The result of a lookup: \<^verbatim>\<open>undefined\<close>, \<^verbatim>\<open>null\<close> or a value. The first two are the
  "not found" values.
\<close>

datatype 'a js_opt = Undefined | Null | Value 'a


text \<open>Metadata values, with JavaScript truthiness.\<close>

datatype js_val = JBool bool | JNum int | JStr string

fun truthy :: "js_val js_opt \<Rightarrow> bool" where
  "truthy Undefined = False"
| "truthy Null = False"
| "truthy (Value (JBool b)) = b"
| "truthy (Value (JNum n)) = (n \<noteq> 0)"
| "truthy (Value (JStr s)) = (s \<noteq> [])"

text \<open>
  A lesson: its key \<^verbatim>\<open>id\<close> and the rest of the record, which the code never looks at.
\<close>

record 'i lesson =
  lid :: 'i
  content :: string

datatype console_entry =
    WarnNoIndexedDB
  | ErrorOpenFailed js_error
  | LogInitialized
  | LogMigrated nat
  | ErrorMigration js_error
  | ErrorSaveFailed js_error
  | ErrorGetAllFailed js_error

text \<open>
  Where a call of \<^verbatim>\<open>migrateFromLocalStorage\<close> stands: waiting for the \<^verbatim>\<open>migrated\<close> flag it
  has asked for; waiting for the save of the first of the lessons still to copy (with
  \<^verbatim>\<open>lessons.length\<close>, which it logs at the end); waiting for the write of the flag; returned;
  or waiting for a promise that never settles.
\<close>

datatype 'i migration =
    ReadingFlag
  | Saving "'i lesson list" nat
  | SettingFlag
  | Ended
  | Stalled

section \<open>The component and its environment\<close>

text \<open>
  The first five fields are those of the \<^verbatim>\<open>LessonsStorage\<close> instance. The others are the
  environment it runs in: \<^verbatim>\<open>window.indexedDB\<close> with the database \<^verbatim>\<open>LessonsDB\<close> (its
  version, its object stores, the records of \<^verbatim>\<open>lessons\<close> in key order, the records of
  \<^verbatim>\<open>metadata\<close>), the exception \<^verbatim>\<open>indexedDB.open\<close> throws and the one a lookup in
  \<^verbatim>\<open>lessons\<close> throws (\<open>None\<close>: the call returns its request), the error each request of
  the provider ends with (\<open>None\<close>: it succeeds),
  the \<^verbatim>\<open>aiLessons\<close> entry of \<^verbatim>\<open>localStorage\<close> (with the length of the serialized array
  and the room there is for it), the console, and the counters a test double
  keeps: the calls of \<^verbatim>\<open>indexedDB.open\<close>, the open requests not yet answered, and the
  \<^verbatim>\<open>put\<close> requests on \<^verbatim>\<open>lessons\<close>. The last but one field holds the calls of
  \<^verbatim>\<open>migrateFromLocalStorage\<close> made so far, each with the point where it stands.

  The \<^verbatim>\<open>aiLessons\<close> entry is held parsed: it is written by this component only, as
  \<^verbatim>\<open>JSON.stringify\<close> of an array of lessons, and read back with \<^verbatim>\<open>JSON.parse\<close>.

  A request of the provider fails through its \<^verbatim>\<open>onerror\<close> handler. Two calls of the
  IndexedDB interface can throw instead of returning a request: \<^verbatim>\<open>indexedDB.open\<close> (a
  \<^verbatim>\<open>SecurityError\<close> where storage is denied), and the lookup of \<^verbatim>\<open>getLesson\<close>, whose key is
  whatever the caller passes (\<^verbatim>\<open>store.get\<close> throws a \<^verbatim>\<open>DataError\<close> for a value that is not a
  valid key, such as \<^verbatim>\<open>NaN\<close>). The lessons saved carry valid keys and the two object stores
  exist once the database has been opened, so that the other calls return their
  requests; \<^verbatim>\<open>localStorage.getItem\<close> does not throw.
\<close>

record 'i world =
  dbName :: string
  dbVersion :: nat
  db :: "nat option"
  useIndexedDB :: bool
  initialized :: bool
  has_indexedDB :: bool
  open_calls :: nat
  open_pending :: nat
  open_throws :: "js_error option"
  open_error :: "js_error option"
  idb_version :: nat
  idb_stores :: "string list"
  idb_lessons :: "'i lesson list"
  idb_metadata :: "string \<rightharpoonup> js_val"
  put_error :: "'i lesson \<Rightarrow> js_error option"
  getAll_error :: "js_error option"
  get_throws :: "'i \<Rightarrow> js_error option"
  get_error :: "'i \<Rightarrow> js_error option"
  delete_error :: "'i \<Rightarrow> js_error option"
  clear_error :: "js_error option"
  meta_put_error :: "string \<Rightarrow> js_error option"
  meta_get_error :: "string \<Rightarrow> js_error option"
  put_log :: "'i lesson list"
  ls_aiLessons :: "'i lesson list option"
  ls_size :: "'i lesson list \<Rightarrow> nat"
  ls_capacity :: nat
  setItem_error :: "'i lesson list \<Rightarrow> js_error option"
  migrations :: "'i migration list"
  console :: "console_entry list"

text \<open>The constructor, in a given environment.\<close>

definition new_LessonsStorage :: "'i world \<Rightarrow> 'i world" where
  "new_LessonsStorage env =
     env\<lparr>dbName := ''LessonsDB'', dbVersion := 1, db := None,
         useIndexedDB := True, initialized := False\<rparr>"

text \<open>The test \<^verbatim>\<open>this.useIndexedDB && this.db\<close> every operation dispatches on.\<close>

definition transactional :: "'i world \<Rightarrow> bool" where
  "transactional w = (useIndexedDB w \<and> db w \<noteq> None)"

subsection \<open>The object store \<^verbatim>\<open>lessons\<close>, keyed by \<^verbatim>\<open>id\<close>\<close>

fun store_put :: "('i::linorder) lesson \<Rightarrow> 'i lesson list \<Rightarrow> 'i lesson list" where
  "store_put x [] = [x]"
| "store_put x (y # ys) =
     (if lid x < lid y then x # y # ys
      else if lid x = lid y then x # ys
      else y # store_put x ys)"

definition store_get :: "'i \<Rightarrow> 'i lesson list \<Rightarrow> 'i lesson js_opt" where
  "store_get k ys = (case find (\<lambda>l. lid l = k) ys of None \<Rightarrow> Undefined | Some l \<Rightarrow> Value l)"

definition store_delete :: "'i \<Rightarrow> 'i lesson list \<Rightarrow> 'i lesson list" where
  "store_delete k ys = filter (\<lambda>l. lid l \<noteq> k) ys"

definition key_sorted :: "('i::linorder) lesson list \<Rightarrow> bool" where
  "key_sorted ys = sorted_wrt (<) (map lid ys)"

subsection \<open>\<^verbatim>\<open>localStorage\<close>\<close>

text \<open>
  \<^verbatim>\<open>localStorage.setItem('aiLessons', JSON.stringify(v))\<close>. The provider throws its
  \<^verbatim>\<open>QuotaExceededError\<close> (legacy code 22) when the serialized array is longer than the room
  there is, may fail for another reason of its own, and stores the array otherwise.
\<close>

definition quota_exceeded :: js_error where
  "quota_exceeded =
     \<lparr>err_name = ''QuotaExceededError'', err_code = Some 22,
      err_message = ''The quota has been exceeded.''\<rparr>"

definition setItem_outcome :: "'i world \<Rightarrow> 'i lesson list \<Rightarrow> js_error option" where
  "setItem_outcome w v =
     (if ls_capacity w < ls_size w v then Some quota_exceeded else setItem_error w v)"

definition setItem :: "'i lesson list \<Rightarrow> 'i world \<Rightarrow> js_error + 'i world" where
  "setItem v w =
     (case setItem_outcome w v of
        Some e \<Rightarrow> Inl e
      | None \<Rightarrow> Inr (w\<lparr>ls_aiLessons := Some v\<rparr>))"

text \<open>
  \<^verbatim>\<open>existing ? JSON.parse(existing) : []\<close>, for \<^verbatim>\<open>existing = localStorage.getItem('aiLessons')\<close>.
\<close>

definition ls_array :: "'i world \<Rightarrow> 'i lesson list" where
  "ls_array w = (case ls_aiLessons w of Some xs \<Rightarrow> xs | None \<Rightarrow> [])"

text \<open>The capacity signal, as the code recognises it, and the two errors thrown for it.\<close>

definition is_quota :: "js_error \<Rightarrow> bool" where
  "is_quota e = (err_name e = ''QuotaExceededError'' \<or> err_code e = Some 22)"

definition data_too_large :: js_error where
  "data_too_large = new_Error ''Storage quota exceeded. Your data is too large for localStorage. Please enable IndexedDB support in your browser.''"

definition lesson_too_large :: js_error where
  "lesson_too_large = new_Error ''Storage quota exceeded. Your lesson is too large. Please enable IndexedDB in your browser or reduce lesson size.''"

text \<open>\<^verbatim>\<open>Array.prototype.findIndex\<close>: the first index whose element satisfies \<open>P\<close>, or -1.\<close>

fun findIndex :: "('a \<Rightarrow> bool) \<Rightarrow> 'a list \<Rightarrow> int" where
  "findIndex P [] = - 1"
| "findIndex P (x # xs) =
     (if P x then 0 else (let r = findIndex P xs in if r < 0 then - 1 else r + 1))"

section \<open>Initialization\<close>

text \<open>
  \<^verbatim>\<open>init()\<close> up to the point where it returns its promise: it returns at once when the
  component is initialized or \<^verbatim>\<open>window.indexedDB\<close> is absent, and otherwise calls
  \<^verbatim>\<open>indexedDB.open\<close>, installs the three handlers and returns a pending promise. The call
  of \<^verbatim>\<open>indexedDB.open\<close> is made inside the executor of \<^verbatim>\<open>new Promise\<close>, with no \<^verbatim>\<open>try\<close>
  around it: when it throws, the promise is rejected with the exception, and nothing has
  been set.
\<close>

definition init_call :: "'i world \<Rightarrow> bool promise \<times> 'i world" where
  "init_call w =
     (if initialized w then (Resolved True, w)
      else if \<not> has_indexedDB w then
        (Resolved True,
         w\<lparr>console := console w @ [WarnNoIndexedDB], useIndexedDB := False, initialized := True\<rparr>)
      else
        (case open_throws w of
           Some e \<Rightarrow> (Rejected e, w\<lparr>open_calls := open_calls w + 1\<rparr>)
         | None \<Rightarrow>
             (Pending, w\<lparr>open_calls := open_calls w + 1, open_pending := open_pending w + 1\<rparr>)))"

definition request_onerror :: "js_error \<Rightarrow> 'i world \<Rightarrow> bool promise \<times> 'i world" where
  "request_onerror e w =
     (Resolved True,
      w\<lparr>console := console w @ [ErrorOpenFailed e], useIndexedDB := False, initialized := True\<rparr>)"

text \<open>
  \<^verbatim>\<open>onsuccess\<close> calls \<^verbatim>\<open>migrateFromLocalStorage()\<close> without awaiting it: the migration is
  started, runs up to its first \<^verbatim>\<open>await\<close> (it has asked for the flag), and goes on after
  the handler has returned.
\<close>

definition request_onsuccess :: "nat \<Rightarrow> 'i world \<Rightarrow> bool promise \<times> 'i world" where
  "request_onsuccess h w =
     (Resolved True,
      w\<lparr>db := Some h, initialized := True, console := console w @ [LogInitialized],
        migrations := migrations w @ [ReadingFlag]\<rparr>)"

definition request_onupgradeneeded :: "'i world \<Rightarrow> 'i world" where
  "request_onupgradeneeded w =
     (let w1 = (if ''lessons'' \<in> set (idb_stores w) then w
                else w\<lparr>idb_stores := idb_stores w @ [''lessons''], idb_lessons := []\<rparr>)
      in if ''metadata'' \<in> set (idb_stores w1) then w1
         else w1\<lparr>idb_stores := idb_stores w1 @ [''metadata''], idb_metadata := Map.empty\<rparr>)"

text \<open>
  The provider answers one open request, with an error or with the connection \<open>h\<close>; a
  database older than the requested version is upgraded first.
\<close>

definition answer_open :: "js_error option \<Rightarrow> nat \<Rightarrow> 'i world \<Rightarrow> bool promise \<times> 'i world" where
  "answer_open outcome h w =
     (let w1 = w\<lparr>open_pending := open_pending w - 1\<rparr>
      in case outcome of
           Some e \<Rightarrow> request_onerror e w1
         | None \<Rightarrow>
             request_onsuccess h
               (if idb_version w1 < dbVersion w1
                then (request_onupgradeneeded w1)\<lparr>idb_version := dbVersion w1\<rparr>
                else w1))"

text \<open>\<^verbatim>\<open>await this.init()\<close> for a single caller: the call, then the answer to its request.\<close>

definition init :: "'i world \<Rightarrow> bool promise \<times> 'i world" where
  "init w =
     (case init_call w of
        (Pending, w1) \<Rightarrow> answer_open (open_error w1) (open_calls w1) w1
      | r \<Rightarrow> r)"

section \<open>The operations\<close>

text \<open>
  The array handling of \<^verbatim>\<open>saveToLocalStorage\<close>: the item replaces the first element with
  its id, or is pushed at the end when there is none.
\<close>

definition array_upsert :: "'i lesson \<Rightarrow> 'i lesson list \<Rightarrow> 'i lesson list" where
  "array_upsert item array =
     (let index = findIndex (\<lambda>i. lid i = lid item) array
      in if index \<ge> 0 then array[nat index := item] else array @ [item])"

text \<open>
  \<^verbatim>\<open>saveToLocalStorage('aiLessons', item, true)\<close>, the one call the component makes: the
  entry is read, the item put into the array, and the array written back.
\<close>

definition saveToLocalStorage :: "'i lesson \<Rightarrow> 'i world \<Rightarrow> (js_error + bool) \<times> 'i world" where
  "saveToLocalStorage item w =
     (case setItem (array_upsert item (ls_array w)) w of
        Inr w' \<Rightarrow> (Inr True, w')
      | Inl e \<Rightarrow> if is_quota e then (Inl data_too_large, w) else (Inl e, w))"

definition saveLesson :: "('i::linorder) lesson \<Rightarrow> 'i world \<Rightarrow> bool promise \<times> 'i world" where
  "saveLesson lesson w0 =
     await (init w0) (\<lambda>_ w.
       if transactional w then
         (case put_error w lesson of
            None \<Rightarrow>
              (Resolved True,
               w\<lparr>idb_lessons := store_put lesson (idb_lessons w), put_log := put_log w @ [lesson]\<rparr>)
          | Some e \<Rightarrow>
              (Rejected e,
               w\<lparr>put_log := put_log w @ [lesson], console := console w @ [ErrorSaveFailed e]\<rparr>))
       else of_sync (saveToLocalStorage lesson w))"

definition getAllLessons :: "'i world \<Rightarrow> 'i lesson list promise \<times> 'i world" where
  "getAllLessons w0 =
     await (init w0) (\<lambda>_ w.
       if transactional w then
         (case getAll_error w of
            None \<Rightarrow> (Resolved (idb_lessons w), w)
          | Some e \<Rightarrow> (Resolved [], w\<lparr>console := console w @ [ErrorGetAllFailed e]\<rparr>))
       else (Resolved (ls_array w), w))"

text \<open>
  Under the transactional backend \<^verbatim>\<open>db.transaction\<close> and \<^verbatim>\<open>store.get\<close> are called inside the
  executor of the promise: an exception thrown there rejects it.
\<close>

definition getLesson :: "'i \<Rightarrow> 'i world \<Rightarrow> 'i lesson js_opt promise \<times> 'i world" where
  "getLesson lessonId w0 =
     await (init w0) (\<lambda>_ w.
       if transactional w then
         (case get_throws w lessonId of
            Some e \<Rightarrow> (Rejected e, w)
          | None \<Rightarrow>
              (case get_error w lessonId of
                 None \<Rightarrow> (Resolved (store_get lessonId (idb_lessons w)), w)
               | Some e \<Rightarrow> (Resolved Null, w)))
       else
         await (getAllLessons w) (\<lambda>lessons w'.
           (Resolved (case find (\<lambda>l. lid l = lessonId) lessons of
                        None \<Rightarrow> Undefined
                      | Some l \<Rightarrow> Value l), w')))"

text \<open>The loop \<^verbatim>\<open>for (const lesson of lessons) { await this.saveLesson(lesson); }\<close>.\<close>

fun saveLesson_each :: "('i::linorder) lesson list \<Rightarrow> 'i world \<Rightarrow> unit promise \<times> 'i world" where
  "saveLesson_each [] w = (Resolved (), w)"
| "saveLesson_each (lesson # lessons) w =
     (case saveLesson lesson w of
        (Resolved v, w') \<Rightarrow> saveLesson_each lessons w'
      | (Rejected e, w') \<Rightarrow> (Rejected e, w')
      | (Pending, w') \<Rightarrow> (Pending, w'))"

text \<open>
  Under the transactional backend the promise that waits for \<^verbatim>\<open>clear\<close> has an
  \<^verbatim>\<open>onsuccess\<close> handler only: when \<^verbatim>\<open>clear\<close> fails it never settles.
\<close>

definition saveAllLessons :: "('i::linorder) lesson list \<Rightarrow> 'i world \<Rightarrow> bool promise \<times> 'i world" where
  "saveAllLessons lessons w0 =
     await (init w0) (\<lambda>_ w.
       if transactional w then
         (case clear_error w of
            Some e \<Rightarrow> (Pending, w)
          | None \<Rightarrow>
              await (saveLesson_each lessons (w\<lparr>idb_lessons := []\<rparr>)) (\<lambda>_ w'. (Resolved True, w')))
       else
         (case setItem lessons w of
            Inr w' \<Rightarrow> (Resolved True, w')
          | Inl e \<Rightarrow>
              if is_quota e then (Rejected lesson_too_large, w) else (Rejected e, w)))"

definition deleteLesson :: "('i::linorder) \<Rightarrow> 'i world \<Rightarrow> bool promise \<times> 'i world" where
  "deleteLesson lessonId w0 =
     await (init w0) (\<lambda>_ w.
       if transactional w then
         (case delete_error w lessonId of
            None \<Rightarrow> (Resolved True, w\<lparr>idb_lessons := store_delete lessonId (idb_lessons w)\<rparr>)
          | Some e \<Rightarrow> (Rejected e, w))
       else
         await (getAllLessons w) (\<lambda>lessons w'.
           saveAllLessons (filter (\<lambda>l. lid l \<noteq> lessonId) lessons) w'))"

definition saveMetadata :: "string \<Rightarrow> js_val \<Rightarrow> 'i world \<Rightarrow> bool promise \<times> 'i world" where
  "saveMetadata key val w0 =
     await (init w0) (\<lambda>_ w.
       if transactional w then
         (case meta_put_error w key of
            None \<Rightarrow> (Resolved True, w\<lparr>idb_metadata := (idb_metadata w)(key \<mapsto> val)\<rparr>)
          | Some e \<Rightarrow> (Rejected e, w))
       else (Resolved True, w))"

text \<open>\<^verbatim>\<open>request.result?.value\<close> of a lookup in \<^verbatim>\<open>metadata\<close> that succeeds.\<close>

definition meta_lookup :: "string \<Rightarrow> 'i world \<Rightarrow> js_val js_opt" where
  "meta_lookup key w = (case idb_metadata w key of None \<Rightarrow> Undefined | Some v \<Rightarrow> Value v)"

definition getMetadata :: "string \<Rightarrow> 'i world \<Rightarrow> js_val js_opt promise \<times> 'i world" where
  "getMetadata key w0 =
     await (init w0) (\<lambda>_ w.
       if transactional w then
         (case meta_get_error w key of
            None \<Rightarrow> (Resolved (meta_lookup key w), w)
          | Some e \<Rightarrow> (Resolved Null, w))
       else (Resolved Null, w))"

record storage_info =
  info_type :: string
  lessonsCount :: nat

definition getStorageInfo :: "'i world \<Rightarrow> storage_info promise \<times> 'i world" where
  "getStorageInfo w0 =
     await (init w0) (\<lambda>_ w.
       let t = (if useIndexedDB w then ''IndexedDB'' else ''LocalStorage'')
       in await (getAllLessons w) (\<lambda>lessons w'.
            (Resolved \<lparr>info_type = t, lessonsCount = length lessons\<rparr>, w')))"

section \<open>Migration\<close>

text \<open>The body of the \<^verbatim>\<open>try\<close> block of \<^verbatim>\<open>migrateFromLocalStorage\<close>.\<close>

definition migrate_body :: "('i::linorder) world \<Rightarrow> unit promise \<times> 'i world" where
  "migrate_body w =
     await (getMetadata ''migrated'' w) (\<lambda>migrated w1.
       if truthy migrated then (Resolved (), w1)
       else
         await (case ls_aiLessons w1 of
                  Some lessons \<Rightarrow>
                    await (saveLesson_each lessons w1) (\<lambda>_ w2.
                      (Resolved (), w2\<lparr>console := console w2 @ [LogMigrated (length lessons)]\<rparr>))
                | None \<Rightarrow> (Resolved (), w1))
           (\<lambda>_ w3. await (saveMetadata ''migrated'' (JBool True) w3) (\<lambda>_ w4. (Resolved (), w4))))"

definition migrateFromLocalStorage :: "('i::linorder) world \<Rightarrow> unit promise \<times> 'i world" where
  "migrateFromLocalStorage w =
     (case migrate_body w of
        (Rejected error, w') \<Rightarrow> (Resolved (), w'\<lparr>console := console w' @ [ErrorMigration error]\<rparr>)
      | r \<Rightarrow> r)"

text \<open>
  The same function one \<^verbatim>\<open>await\<close> at a time: what a migration does when the promise it
  waits for settles, up to its next \<^verbatim>\<open>await\<close>. Between two such steps anything else can
  happen.
\<close>

definition continue_copy :: "'i lesson list \<Rightarrow> nat \<Rightarrow> 'i world \<Rightarrow> 'i migration \<times> 'i world" where
  "continue_copy lessons n w =
     (case lessons of
        [] \<Rightarrow> (SettingFlag, w\<lparr>console := console w @ [LogMigrated n]\<rparr>)
      | lesson # rest \<Rightarrow> (Saving lessons n, w))"

fun migration_step :: "('i::linorder) migration \<Rightarrow> 'i world \<Rightarrow> 'i migration \<times> 'i world" where
  "migration_step ReadingFlag w =
     (case getMetadata ''migrated'' w of
        (Resolved migrated, w1) \<Rightarrow>
          if truthy migrated then (Ended, w1)
          else
            (case ls_aiLessons w1 of
               Some lessons \<Rightarrow> continue_copy lessons (length lessons) w1
             | None \<Rightarrow> (SettingFlag, w1))
      | (Rejected error, w1) \<Rightarrow> (Ended, w1\<lparr>console := console w1 @ [ErrorMigration error]\<rparr>)
      | (Pending, w1) \<Rightarrow> (Stalled, w1))"
| "migration_step (Saving [] n) w = continue_copy [] n w"
| "migration_step (Saving (lesson # rest) n) w =
     (case saveLesson lesson w of
        (Resolved v, w1) \<Rightarrow> continue_copy rest n w1
      | (Rejected error, w1) \<Rightarrow> (Ended, w1\<lparr>console := console w1 @ [ErrorMigration error]\<rparr>)
      | (Pending, w1) \<Rightarrow> (Stalled, w1))"
| "migration_step SettingFlag w =
     (case saveMetadata ''migrated'' (JBool True) w of
        (Resolved v, w1) \<Rightarrow> (Ended, w1)
      | (Rejected error, w1) \<Rightarrow> (Ended, w1\<lparr>console := console w1 @ [ErrorMigration error]\<rparr>)
      | (Pending, w1) \<Rightarrow> (Stalled, w1))"
| "migration_step Ended w = (Ended, w)"
| "migration_step Stalled w = (Stalled, w)"

definition running :: "'i migration \<Rightarrow> bool" where
  "running m = (m \<noteq> Ended \<and> m \<noteq> Stalled)"

text \<open>One migration makes \<open>k\<close> steps with nothing in between.\<close>

fun drive :: "nat \<Rightarrow> ('i::linorder) migration \<Rightarrow> 'i world \<Rightarrow> 'i migration \<times> 'i world" where
  "drive 0 m w = (m, w)"
| "drive (Suc k) m w = (case migration_step m w of (m', w') \<Rightarrow> drive k m' w')"

text \<open>
  The steps a migration has left at most: the flag, one save for each lesson of the
  entry, the flag again.
\<close>

definition steps_left :: "'i migration \<Rightarrow> 'i world \<Rightarrow> nat" where
  "steps_left m w =
     (case m of
        ReadingFlag \<Rightarrow> length (ls_array w) + 2
      | Saving lessons n \<Rightarrow> length lessons + 1
      | SettingFlag \<Rightarrow> 1
      | Ended \<Rightarrow> 0
      | Stalled \<Rightarrow> 0)"

fun first_running :: "'i migration list \<Rightarrow> nat option" where
  "first_running [] = None"
| "first_running (m # ms) = (if running m then Some 0 else map_option Suc (first_running ms))"

text \<open>
  The migration that was started first and has not returned runs to its end, with
  nothing in between.
\<close>

definition run_migration :: "('i::linorder) world \<Rightarrow> 'i world" where
  "run_migration w =
     (case first_running (migrations w) of
        None \<Rightarrow> w
      | Some i \<Rightarrow>
          (case drive (steps_left (migrations w ! i) w) (migrations w ! i) w of
             (m', w') \<Rightarrow> w'\<lparr>migrations := (migrations w')[i := m']\<rparr>))"

section \<open>The life of the process\<close>

text \<open>The backend an operation dispatches to.\<close>

datatype backend_kind = TransactionalStore | SynchronousFallback

definition backendKind :: "'i world \<Rightarrow> backend_kind" where
  "backendKind w = (if transactional w then TransactionalStore else SynchronousFallback)"


text \<open>
  Two states in which the component has made the same choice: the fields the dispatch
  reads, the \<^verbatim>\<open>initialized\<close> flag, and the open requests still pending.
\<close>

definition same_component :: "'i world \<Rightarrow> 'i world \<Rightarrow> bool" where
  "same_component w w' =
     (db w' = db w \<and> useIndexedDB w' = useIndexedDB w \<and> initialized w' = initialized w \<and>
      open_pending w' = open_pending w)"

definition keeps :: "('i world \<Rightarrow> 'a \<times> 'i world) \<Rightarrow> bool" where
  "keeps f = (\<forall>w. initialized w \<longrightarrow> same_component w (snd (f w)))"

text \<open>The public operations, and the state each leaves when it has run to completion.\<close>

datatype 'i call =
    SaveLesson "'i lesson"
  | GetAllLessons
  | GetLesson 'i
  | DeleteLesson 'i
  | SaveAllLessons "'i lesson list"
  | SaveMetadata string js_val
  | GetMetadata string
  | GetStorageInfo

fun perform :: "('i::linorder) call \<Rightarrow> 'i world \<Rightarrow> 'i world" where
  "perform (SaveLesson lesson) w = snd (saveLesson lesson w)"
| "perform GetAllLessons w = snd (getAllLessons w)"
| "perform (GetLesson lessonId) w = snd (getLesson lessonId w)"
| "perform (DeleteLesson lessonId) w = snd (deleteLesson lessonId w)"
| "perform (SaveAllLessons lessons) w = snd (saveAllLessons lessons w)"
| "perform (SaveMetadata key val) w = snd (saveMetadata key val w)"
| "perform (GetMetadata key) w = snd (getMetadata key w)"
| "perform GetStorageInfo w = snd (getStorageInfo w)"

text \<open>
  What can happen, one event at a time. \<open>Enter\<close>: a caller enters a public operation,
  which runs \<^verbatim>\<open>init()\<close> up to its return, and waits. \<open>Answer\<close>: the provider answers one
  of the open requests still pending, with an error or with a connection. \<open>Call\<close>: a public
  operation runs from its call to its completion with nothing in between. \<open>Migrate i\<close>:
  the promise that the \<open>i\<close>-th migration waits for settles, and the migration goes on to
  its next \<^verbatim>\<open>await\<close>. An event that is not possible gives \<open>None\<close>.
\<close>

datatype 'i event = Enter | Answer "js_error option" nat | Call "'i call" | Migrate nat

fun fire :: "('i::linorder) event \<Rightarrow> 'i world \<Rightarrow> 'i world option" where
  "fire Enter w = Some (snd (init_call w))"
| "fire (Answer outcome h) w =
     (if open_pending w = 0 then None else Some (snd (answer_open outcome h w)))"
| "fire (Call c) w = Some (perform c w)"
| "fire (Migrate i) w =
     (if i < length (migrations w) \<and> running (migrations w ! i) then
        (case migration_step (migrations w ! i) w of
           (m', w') \<Rightarrow> Some (w'\<lparr>migrations := (migrations w')[i := m']\<rparr>))
      else None)"

fun run :: "('i::linorder) event list \<Rightarrow> 'i world \<Rightarrow> 'i world option" where
  "run [] w = Some w"
| "run (ev # evs) w = (case fire ev w of None \<Rightarrow> None | Some w' \<Rightarrow> run evs w')"

text \<open>
  Nothing of the component's own is under way: it is initialized, no open request is
  pending, and no migration is running. Then only callers make things happen.
\<close>

definition idle :: "'i world \<Rightarrow> bool" where
  "idle w = (initialized w \<and> open_pending w = 0 \<and> (\<forall>m\<in>set (migrations w). \<not> running m))"

section \<open>Example environments\<close>

text \<open>
  A browser with IndexedDB, no database yet, nothing in \<^verbatim>\<open>localStorage\<close>, and a provider
  whose requests all succeed. The length of a serialized array is counted in lessons, and
  there is room for a thousand.
\<close>

definition quiet_env :: "nat world" where
  "quiet_env =
     \<lparr>dbName = [], dbVersion = 0, db = None, useIndexedDB = False, initialized = False,
      has_indexedDB = True, open_calls = 0, open_pending = 0, open_throws = None,
      open_error = None,
      idb_version = 0, idb_stores = [], idb_lessons = [], idb_metadata = Map.empty,
      put_error = (\<lambda>l. None), getAll_error = None, get_throws = (\<lambda>k. None),
      get_error = (\<lambda>k. None),
      delete_error = (\<lambda>k. None), clear_error = None, meta_put_error = (\<lambda>k. None),
      meta_get_error = (\<lambda>k. None), put_log = [], ls_aiLessons = None,
      ls_size = length, ls_capacity = 1000, setItem_error = (\<lambda>v. None), migrations = [], console = []\<rparr>"

definition unknown_error :: js_error where
  "unknown_error = \<lparr>err_name = ''UnknownError'', err_code = Some 0, err_message = ''Internal error.''\<rparr>"

definition lesson_a :: "nat lesson" where
  "lesson_a = \<lparr>lid = 1, content = ''fractions''\<rparr>"


definition lesson_b :: "nat lesson" where
  "lesson_b = \<lparr>lid = 2, content = ''decimals''\<rparr>"

definition lesson_c :: "nat lesson" where
  "lesson_c = \<lparr>lid = 3, content = ''percentages''\<rparr>"

text \<open>
  A browser without IndexedDB whose \<^verbatim>\<open>localStorage\<close> has room for one lesson, and holds one.
\<close>

definition small_env :: "nat world" where
  "small_env =
     quiet_env\<lparr>has_indexedDB := False, ls_aiLessons := Some [lesson_a], ls_capacity := 1\<rparr>"

text \<open>The same browser, with a \<^verbatim>\<open>localStorage\<close> that refuses every write for another reason.\<close>

definition readonly_env :: "nat world" where
  "readonly_env =
     quiet_env\<lparr>has_indexedDB := False, ls_aiLessons := Some [lesson_a],
       setItem_error := (\<lambda>v. Some unknown_error)\<rparr>"

text \<open>
  The browser without IndexedDB once the rest of the quota has been taken: the entry
  holds three lessons, and a write of more than one is refused.
\<close>

definition crowded_env :: "nat world" where
  "crowded_env = small_env\<lparr>ls_aiLessons := Some [lesson_a, lesson_b, lesson_c]\<rparr>"


text \<open>
  A browser with IndexedDB and two lessons in the legacy entry, whose provider refuses
  to store the lesson with id 1.
\<close>

definition failing_put_env :: "nat world" where
  "failing_put_env =
     quiet_env\<lparr>ls_aiLessons := Some [lesson_a, lesson_b],
       put_error := (\<lambda>l. if lid l = 1 then Some unknown_error else None)\<rparr>"

text \<open>A browser with IndexedDB and a legacy entry of two lessons with distinct ids.\<close>

definition legacy_env :: "nat world" where
  "legacy_env = quiet_env\<lparr>ls_aiLessons := Some [lesson_b, lesson_a]\<rparr>"

text \<open>The component of the first browser, initialized: the transactional backend.\<close>

definition idb_ready :: "nat world" where
  "idb_ready = snd (init (new_LessonsStorage quiet_env))"





text \<open>
  The components of the two browsers with a legacy entry, initialized, the migration not
  yet run.
\<close>

definition failing_put_ready :: "nat world" where
  "failing_put_ready = snd (init (new_LessonsStorage failing_put_env))"

definition legacy_ready :: "nat world" where
  "legacy_ready = snd (init (new_LessonsStorage legacy_env))"

text \<open>
  A browser that denies the page its storage: \<^verbatim>\<open>indexedDB.open\<close> throws a
  \<^verbatim>\<open>SecurityError\<close>.
\<close>

definition security_error :: js_error where
  "security_error =
     \<lparr>err_name = ''SecurityError'', err_code = Some 18, err_message = ''The operation is insecure.''\<rparr>"

definition denied_env :: "nat world" where
  "denied_env = quiet_env\<lparr>open_throws := Some security_error\<rparr>"






text \<open>
  A browser that has been here before: the database exists and holds lessons 1 and 3,
  the legacy entry still holds lessons 2 and 1, and the \<^verbatim>\<open>migrated\<close> flag was never
  written. Its component, initialized, the migration not yet run.
\<close>

definition returning_env :: "nat world" where
  "returning_env =
     quiet_env\<lparr>idb_version := 1, idb_stores := [''lessons'', ''metadata''],
       idb_lessons := [lesson_a, lesson_c], ls_aiLessons := Some [lesson_b, lesson_a]\<rparr>"

definition returning_ready :: "nat world" where
  "returning_ready = snd (init (new_LessonsStorage returning_env))"

section \<open>Basic facts\<close>

lemma await_simps [simp]:
  "await (Resolved v, s) k = k v s"
  "await (Rejected e, s) k = (Rejected e, s)"
  "await (Pending, s) k = (Pending, s)"
  by (simp_all add: await_def)

lemma init_initialized [simp]: "initialized w \<Longrightarrow> init w = (Resolved True, w)"
  by (simp add: init_def init_call_def)

lemmas init_defs =
  init_def init_call_def answer_open_def request_onerror_def request_onsuccess_def
  request_onupgradeneeded_def Let_def

text \<open>
  \<^verbatim>\<open>init()\<close> completes unless \<^verbatim>\<open>indexedDB.open\<close> throws; then it rejects, and all it leaves
  is one more call of \<^verbatim>\<open>indexedDB.open\<close>.
\<close>

lemma init_throws:
  "\<not> initialized w \<Longrightarrow> has_indexedDB w \<Longrightarrow> open_throws w = Some e \<Longrightarrow>
     init w = (Rejected e, w\<lparr>open_calls := open_calls w + 1\<rparr>)"
  by (simp add: init_def init_call_def)

lemma init_completes_iff:
  "initialized (snd (init w)) \<longleftrightarrow> initialized w \<or> \<not> has_indexedDB w \<or> open_throws w = None"
  by (auto simp add: init_defs split: option.splits)

lemma init_resolves_iff: "fst (init w) = Resolved True \<longleftrightarrow> initialized (snd (init w))"
  by (auto simp add: init_defs split: option.splits)

lemma init_rejects_iff:
  "fst (init w) = Rejected e \<longleftrightarrow> \<not> initialized w \<and> has_indexedDB w \<and> open_throws w = Some e"
  by (auto simp add: init_defs split: option.splits)

lemma init_settles: "fst (init w) \<noteq> Pending"
  by (simp add: init_defs split: option.splits)

lemma init_eq: "initialized (snd (init w)) \<Longrightarrow> init w = (Resolved True, snd (init w))"
  using init_resolves_iff [of w] by (cases "init w") simp

lemma init_call_fresh:
  "\<not> initialized w \<Longrightarrow> has_indexedDB w \<Longrightarrow> open_throws w = None \<Longrightarrow>
     init_call w = (Pending, w\<lparr>open_calls := open_calls w + 1, open_pending := open_pending w + 1\<rparr>)"
  by (simp add: init_call_def)

lemma run_Enter_Enter:
  "\<not> initialized w \<Longrightarrow> has_indexedDB w \<Longrightarrow> open_throws w = None \<Longrightarrow>
     run (Enter # Enter # evs) w =
     run evs (w\<lparr>open_calls := open_calls w + 2, open_pending := open_pending w + 2\<rparr>)"
  by (simp add: init_call_def)

lemma run_Enter_Enter_throws:
  "\<not> initialized w \<Longrightarrow> has_indexedDB w \<Longrightarrow> open_throws w = Some e \<Longrightarrow>
     run (Enter # Enter # evs) w = run evs (w\<lparr>open_calls := open_calls w + 2\<rparr>)"
  by (simp add: init_call_def)

lemma answer_open_fields:
  "initialized (snd (answer_open a h s))"
  "open_pending (snd (answer_open a h s)) = open_pending s - 1"
  "open_calls (snd (answer_open a h s)) = open_calls s"
  "useIndexedDB (snd (answer_open a h s)) = (a = None \<and> useIndexedDB s)"
  "db (snd (answer_open a h s)) = (if a = None then Some h else db s)"
  by (simp_all add: answer_open_def request_onerror_def request_onsuccess_def
      request_onupgradeneeded_def Let_def split: option.splits)

lemma backendKind_answer_open:
  "backendKind (snd (answer_open a h s)) =
     (if a = None then (if useIndexedDB s then TransactionalStore else SynchronousFallback)
      else SynchronousFallback)"
  by (simp add: backendKind_def transactional_def answer_open_fields)

lemma init_call_initialized: "initialized s \<Longrightarrow> init_call s = (Resolved True, s)"
  by (simp add: init_call_def)

lemma init_frame:
  "ls_aiLessons (snd (init w)) = ls_aiLessons w"
  "setItem_error (snd (init w)) = setItem_error w"
  "ls_size (snd (init w)) = ls_size w"
  "ls_capacity (snd (init w)) = ls_capacity w"
  "get_error (snd (init w)) = get_error w"
  "put_error (snd (init w)) = put_error w"
  "put_log (snd (init w)) = put_log w"
  "get_throws (snd (init w)) = get_throws w"
  "open_throws (snd (init w)) = open_throws w"
  "has_indexedDB (snd (init w)) = has_indexedDB w"
  by (simp_all add: init_defs split: option.splits)

lemma setItem_outcome_init [simp]: "setItem_outcome (snd (init w)) v = setItem_outcome w v"
  by (simp add: setItem_outcome_def init_frame)

lemma setItem_outcome_entry [simp]:
  "setItem_outcome (w\<lparr>ls_aiLessons := x\<rparr>) v = setItem_outcome w v"
  by (simp add: setItem_outcome_def)

lemma setItem_outcome_over: "ls_capacity w < ls_size w v \<Longrightarrow> setItem_outcome w v = Some quota_exceeded"
  by (simp add: setItem_outcome_def)

lemma setItem_outcome_fits:
  "ls_size w v \<le> ls_capacity w \<Longrightarrow> setItem_outcome w v = setItem_error w v"
  by (simp add: setItem_outcome_def)

lemma ls_array_init [simp]: "ls_array (snd (init w)) = ls_array w"
  by (simp add: ls_array_def init_frame)

lemma fallback_iff: "backendKind w = SynchronousFallback \<longleftrightarrow> \<not> transactional w"
  by (simp add: backendKind_def)

lemma getAllLessons_fallback:
  "initialized w \<Longrightarrow> \<not> transactional w \<Longrightarrow> getAllLessons w = (Resolved (ls_array w), w)"
  by (simp add: getAllLessons_def)

lemma saveAllLessons_fallback:
  "initialized w \<Longrightarrow> \<not> transactional w \<Longrightarrow>
     saveAllLessons lessons w =
       (case setItem_outcome w lessons of
          None \<Rightarrow> (Resolved True, w\<lparr>ls_aiLessons := Some lessons\<rparr>)
        | Some e \<Rightarrow> (Rejected (if is_quota e then lesson_too_large else e), w))"
  by (simp add: saveAllLessons_def setItem_def split: option.splits)

text \<open>An operation on a component not yet initialized is the operation after \<^verbatim>\<open>init()\<close>.\<close>

lemma saveAllLessons_init:
  "initialized (snd (init w)) \<Longrightarrow> saveAllLessons lessons w = saveAllLessons lessons (snd (init w))"
  unfolding saveAllLessons_def by (subst init_eq) simp_all


lemma getAllLessons_init:
  "initialized (snd (init w)) \<Longrightarrow> getAllLessons w = getAllLessons (snd (init w))"
  unfolding getAllLessons_def by (subst init_eq) simp_all

lemma deleteLesson_init:
  "initialized (snd (init w)) \<Longrightarrow> deleteLesson k w = deleteLesson k (snd (init w))"
  unfolding deleteLesson_def by (subst init_eq) simp_all

text \<open>When \<^verbatim>\<open>init()\<close> rejects, so does the operation that awaited it, having done nothing.\<close>

lemma init_rejected:
  "\<not> initialized (snd (init w)) \<Longrightarrow> \<exists>e. init w = (Rejected e, w\<lparr>open_calls := open_calls w + 1\<rparr>)"
  using init_throws [of w] by (auto simp add: init_completes_iff)

lemma operations_init_rejected:
  assumes "init w = (Rejected e, w')"
  shows "saveAllLessons lessons w = (Rejected e, w')"
    and "getLesson k w = (Rejected e, w')"
    and "getAllLessons w = (Rejected e, w')"
    and "deleteLesson k w = (Rejected e, w')"
    and "saveLesson l w = (Rejected e, w')"
  using assms by (simp_all add: saveAllLessons_def getLesson_def getAllLessons_def deleteLesson_def
      saveLesson_def)

lemma not_quota_lesson_too_large: "\<not> is_quota lesson_too_large"
  by (simp add: is_quota_def lesson_too_large_def new_Error_def)

lemma example_errors: "is_quota quota_exceeded" "\<not> is_quota unknown_error"
  by (simp_all add: is_quota_def quota_exceeded_def unknown_error_def)

section \<open>Initialization: open failures and overlapping callers\<close>




text \<open>
  C1, as amended. \<^verbatim>\<open>init()\<close> is memoized on the \<^verbatim>\<open>initialized\<close> flag only, which is set
  when an open request is answered. Two callers that enter before that each call
  \<^verbatim>\<open>indexedDB.open\<close>: there are two open attempts. When the two requests are answered
  alike (both succeed, or both fail) the two callers dispatch on the same backend, and
  once both are answered, entering again opens nothing and leaves the state as it is. A
  caller who enters after a first caller's initialization has completed opens nothing:
  one caller alone makes one open attempt, and a second \<^verbatim>\<open>init()\<close> changes nothing. (When
  \<^verbatim>\<open>indexedDB.open\<close> throws there is no request to answer: each of the two calls is
  counted and rejected, and nothing else changes.)
\<close>

theorem init_overlapping_calls:
  assumes fresh: "\<not> initialized w" and idb: "has_indexedDB w"
  shows
    "map_option open_calls (run [Enter, Enter] w) = Some (open_calls w + 2) \<and>
     (open_throws w = None \<and> (a = None \<longleftrightarrow> a' = None) \<longrightarrow>
        run [Enter, Enter, Answer a h, Answer a' h'] w \<noteq> None \<and>
        map_option backendKind (run [Enter, Enter, Answer a h] w) =
        map_option backendKind (run [Enter, Enter, Answer a h, Answer a' h'] w) \<and>
        map_option init_call (run [Enter, Enter, Answer a h, Answer a' h'] w) =
        map_option (Pair (Resolved True)) (run [Enter, Enter, Answer a h, Answer a' h'] w)) \<and>
     open_calls (snd (init w)) = open_calls w + 1 \<and>
     (open_throws w = None \<longrightarrow> init (snd (init w)) = (Resolved True, snd (init w))) \<and>
     (\<forall>e. open_throws w = Some e \<longrightarrow>
        run [Enter, Enter] w = Some (w\<lparr>open_calls := open_calls w + 2\<rparr>) \<and>
        init_call w = (Rejected e, w\<lparr>open_calls := open_calls w + 1\<rparr>))"
proof (cases "open_throws w")
  case None
  define s2 where "s2 = w\<lparr>open_calls := open_calls w + 2, open_pending := open_pending w + 2\<rparr>"
  define s3 where "s3 = snd (answer_open a h s2)"
  define s4 where "s4 = snd (answer_open a' h' s3)"
  have r2: "run (Enter # Enter # evs) w = run evs s2" for evs
    unfolding s2_def using fresh idb None by (rule run_Enter_Enter)
  have p2: "open_pending s2 \<noteq> 0" by (simp add: s2_def)
  have p3: "open_pending s3 \<noteq> 0" by (simp add: s3_def s2_def answer_open_fields)
  have r3: "run [Enter, Enter, Answer a h] w = Some s3"
    unfolding r2 using p2 by (simp add: s3_def)
  have r4: "run [Enter, Enter, Answer a h, Answer a' h'] w = Some s4"
    unfolding r2 using p2 p3 by (simp add: s3_def [symmetric] s4_def)
  have calls: "map_option open_calls (run [Enter, Enter] w) = Some (open_calls w + 2)"
    unfolding r2 by (simp add: s2_def)
  have same: "backendKind s3 = backendKind s4" if "a = None \<longleftrightarrow> a' = None"
    using that by (auto simp add: s4_def s3_def backendKind_answer_open answer_open_fields)
  have again: "init_call s4 = (Resolved True, s4)"
    by (simp add: s4_def init_call_initialized answer_open_fields)
  have one: "open_calls (snd (init w)) = open_calls w + 1"
    using fresh idb None by (simp add: init_def init_call_fresh answer_open_fields)
  have idem: "init (snd (init w)) = (Resolved True, snd (init w))"
    using None by (simp add: init_completes_iff)
  show ?thesis
    unfolding r3 r4 calls using same again one idem None by simp
next
  case (Some e)
  have r2: "run [Enter, Enter] w = Some (w\<lparr>open_calls := open_calls w + 2\<rparr>)"
    using run_Enter_Enter_throws [OF fresh idb Some, of "[]"] by simp
  have one: "open_calls (snd (init w)) = open_calls w + 1"
    by (simp add: init_throws [OF fresh idb Some])
  have call: "init_call w = (Rejected e, w\<lparr>open_calls := open_calls w + 1\<rparr>)"
    using fresh idb Some by (simp add: init_call_def)
  show ?thesis
    unfolding r2 using one call Some by simp
qed

text \<open>
  Two callers on a fresh component, both requests answered with a connection; two
  callers on a fresh component in the browser that denies the page its storage.
\<close>

theorem init_overlapping_calls_witness:
  "\<not> initialized (new_LessonsStorage quiet_env) \<and>
   has_indexedDB (new_LessonsStorage quiet_env) \<and>
   open_throws (new_LessonsStorage quiet_env) = None \<and>
   map_option open_calls (run [Enter, Enter] (new_LessonsStorage quiet_env)) = Some 2 \<and>
   map_option backendKind (run [Enter, Enter, Answer None 1] (new_LessonsStorage quiet_env)) =
   map_option backendKind
     (run [Enter, Enter, Answer None 1, Answer None 2] (new_LessonsStorage quiet_env)) \<and>
   open_calls (snd (init (new_LessonsStorage quiet_env))) = 1 \<and>
   \<not> initialized (new_LessonsStorage denied_env) \<and>
   has_indexedDB (new_LessonsStorage denied_env) \<and>
   open_throws (new_LessonsStorage denied_env) = Some security_error \<and>
   map_option open_calls (run [Enter, Enter] (new_LessonsStorage denied_env)) = Some 2 \<and>
   fst (init_call (new_LessonsStorage denied_env)) = Rejected security_error"
proof -
  have a: "\<not> initialized (new_LessonsStorage quiet_env)"
    "\<not> initialized (new_LessonsStorage denied_env)"
    by (simp_all add: new_LessonsStorage_def)
  have b: "has_indexedDB (new_LessonsStorage quiet_env)"
    "has_indexedDB (new_LessonsStorage denied_env)"
    by (simp_all add: new_LessonsStorage_def quiet_env_def denied_env_def)
  have c: "open_calls (new_LessonsStorage quiet_env) = 0"
    "open_throws (new_LessonsStorage quiet_env) = None"
    "open_calls (new_LessonsStorage denied_env) = 0"
    "open_throws (new_LessonsStorage denied_env) = Some security_error"
    by (simp_all add: new_LessonsStorage_def quiet_env_def denied_env_def)
  have quiet:
    "map_option open_calls (run [Enter, Enter] (new_LessonsStorage quiet_env)) = Some 2 \<and>
     map_option backendKind (run [Enter, Enter, Answer None 1] (new_LessonsStorage quiet_env)) =
     map_option backendKind
       (run [Enter, Enter, Answer None 1, Answer None 2] (new_LessonsStorage quiet_env)) \<and>
     open_calls (snd (init (new_LessonsStorage quiet_env))) = 1"
    using init_overlapping_calls [OF a(1) b(1), of None None 1 2] by (simp add: c)
  from init_overlapping_calls [OF a(2) b(2), of None None 1 2]
  have twice: "map_option open_calls (run [Enter, Enter] (new_LessonsStorage denied_env)) =
      Some (open_calls (new_LessonsStorage denied_env) + 2)"
    and rejected: "init_call (new_LessonsStorage denied_env) =
      (Rejected security_error,
       (new_LessonsStorage denied_env)\<lparr>open_calls := open_calls (new_LessonsStorage denied_env) + 1\<rparr>)"
    using c(4) by blast+
  have denied:
    "map_option open_calls (run [Enter, Enter] (new_LessonsStorage denied_env)) = Some 2"
    "fst (init_call (new_LessonsStorage denied_env)) = Rejected security_error"
    using twice by (simp_all add: c(3) rejected numeral_2_eq_2 del: run.simps)
  show ?thesis
    using quiet denied a b c(2,4) by blast
qed

text \<open>
  C1 as stated fails: on a fresh component two callers that enter before any answer make
  two open attempts, not one.
\<close>

theorem overlapping_first_calls_open_twice:
  "map_option open_calls (run [Enter, Enter] (new_LessonsStorage quiet_env)) = Some 2"
  by (simp add: new_LessonsStorage_def quiet_env_def init_call_def)

section \<open>The fallback backend: quota, lookup and deletion\<close>

text \<open>
  C7. Under the synchronous fallback, \<^verbatim>\<open>saveAllLessons\<close> of an array whose serialized
  length exceeds the capacity of the store rejects with the quota error of its own (a
  plain \<^verbatim>\<open>Error\<close> carrying the user-facing message, not itself a capacity signal). When
  the array fits and the write fails for another reason, it rejects with the provider's
  error as it is (or with the quota error, should that error carry the name or the code
  of the capacity signal). Either way nothing is written: the state is the one
  initialization left, and the stored entry is unchanged. (A component that could not be
  initialized, because \<^verbatim>\<open>indexedDB.open\<close> throws, has selected no backend: there
  \<^verbatim>\<open>saveAllLessons\<close> rejects with that exception, and writes nothing either.)
\<close>

theorem saveAllLessons_quota:
  assumes "backendKind (snd (init w)) = SynchronousFallback"
  shows "(initialized (snd (init w)) \<longrightarrow>
       (ls_capacity w < ls_size w lessons \<longrightarrow>
          fst (saveAllLessons lessons w) = Rejected lesson_too_large \<and>
          snd (saveAllLessons lessons w) = snd (init w) \<and>
          ls_aiLessons (snd (saveAllLessons lessons w)) = ls_aiLessons w) \<and>
       (ls_size w lessons \<le> ls_capacity w \<and> setItem_error w lessons = Some e \<longrightarrow>
          fst (saveAllLessons lessons w) = Rejected (if is_quota e then lesson_too_large else e) \<and>
          snd (saveAllLessons lessons w) = snd (init w) \<and>
          ls_aiLessons (snd (saveAllLessons lessons w)) = ls_aiLessons w)) \<and>
     (\<forall>e'. fst (init w) = Rejected e' \<longrightarrow>
        fst (saveAllLessons lessons w) = Rejected e' \<and>
        snd (saveAllLessons lessons w) = snd (init w) \<and>
        ls_aiLessons (snd (saveAllLessons lessons w)) = ls_aiLessons w) \<and>
     \<not> is_quota lesson_too_large"
proof -
  let ?w1 = "snd (init w)"
  have fb: "\<not> transactional ?w1" using assms by (simp add: fallback_iff)
  have sav: "saveAllLessons lessons w =
       (case setItem_outcome w lessons of
          None \<Rightarrow> (Resolved True, ?w1\<lparr>ls_aiLessons := Some lessons\<rparr>)
        | Some e \<Rightarrow> (Rejected (if is_quota e then lesson_too_large else e), ?w1))"
    if ini: "initialized ?w1"
    by (subst saveAllLessons_init [OF ini]) (simp add: saveAllLessons_fallback ini fb)
  have over: "saveAllLessons lessons w = (Rejected lesson_too_large, ?w1)"
    if "initialized ?w1" and "ls_capacity w < ls_size w lessons"
    using that by (simp add: sav setItem_outcome_over example_errors)
  have other: "saveAllLessons lessons w =
       (Rejected (if is_quota e then lesson_too_large else e), ?w1)"
    if "initialized ?w1" and "ls_size w lessons \<le> ls_capacity w"
      and "setItem_error w lessons = Some e"
    using that by (simp add: sav setItem_outcome_fits)
  have thrown: "saveAllLessons lessons w = (Rejected e', ?w1)" if "fst (init w) = Rejected e'" for e'
    using that operations_init_rejected(1) [of w e' ?w1 lessons] by (cases "init w") simp
  show ?thesis
    using over other thrown by (simp add: init_frame not_quota_lesson_too_large)
qed

text \<open>
  Two lessons into a store with room for one: the quota error, and the entry still holds
  the one lesson it held. One lesson into a store that has room and refuses every write
  with an unknown error: that error. One lesson in the browser that denies the page its
  storage: the exception of \<^verbatim>\<open>indexedDB.open\<close>.
\<close>

theorem saveAllLessons_quota_witness:
  "backendKind (snd (init (new_LessonsStorage small_env))) = SynchronousFallback \<and>
   initialized (snd (init (new_LessonsStorage small_env))) \<and>
   ls_capacity (new_LessonsStorage small_env)
     < ls_size (new_LessonsStorage small_env) [lesson_a, lesson_b] \<and>
   fst (saveAllLessons [lesson_a, lesson_b] (new_LessonsStorage small_env))
     = Rejected lesson_too_large \<and>
   ls_aiLessons (snd (saveAllLessons [lesson_a, lesson_b] (new_LessonsStorage small_env)))
     = Some [lesson_a] \<and>
   backendKind (snd (init (new_LessonsStorage readonly_env))) = SynchronousFallback \<and>
   initialized (snd (init (new_LessonsStorage readonly_env))) \<and>
   ls_size (new_LessonsStorage readonly_env) [lesson_b]
     \<le> ls_capacity (new_LessonsStorage readonly_env) \<and>
   setItem_error (new_LessonsStorage readonly_env) [lesson_b] = Some unknown_error \<and>
   \<not> is_quota unknown_error \<and>
   fst (saveAllLessons [lesson_b] (new_LessonsStorage readonly_env)) = Rejected unknown_error \<and>
   ls_aiLessons (snd (saveAllLessons [lesson_b] (new_LessonsStorage readonly_env)))
     = Some [lesson_a] \<and>
   backendKind (snd (init (new_LessonsStorage denied_env))) = SynchronousFallback \<and>
   fst (init (new_LessonsStorage denied_env)) = Rejected security_error \<and>
   fst (saveAllLessons [lesson_b] (new_LessonsStorage denied_env)) = Rejected security_error"
proof -
  have a: "backendKind (snd (init (new_LessonsStorage small_env))) = SynchronousFallback"
    "initialized (snd (init (new_LessonsStorage small_env)))"
    by (simp_all add: new_LessonsStorage_def small_env_def quiet_env_def init_defs backendKind_def
        transactional_def)
  have c: "backendKind (snd (init (new_LessonsStorage readonly_env))) = SynchronousFallback"
    "initialized (snd (init (new_LessonsStorage readonly_env)))"
    by (simp_all add: new_LessonsStorage_def readonly_env_def quiet_env_def init_defs backendKind_def
        transactional_def)
  have d: "backendKind (snd (init (new_LessonsStorage denied_env))) = SynchronousFallback"
    "fst (init (new_LessonsStorage denied_env)) = Rejected security_error"
    by (simp_all add: new_LessonsStorage_def denied_env_def quiet_env_def init_defs backendKind_def
        transactional_def)
  have vals:
    "ls_capacity (new_LessonsStorage small_env) = 1"
    "ls_size (new_LessonsStorage small_env) = length"
    "ls_capacity (new_LessonsStorage readonly_env) = 1000"
    "ls_size (new_LessonsStorage readonly_env) = length"
    "setItem_error (new_LessonsStorage readonly_env) [lesson_b] = Some unknown_error"
    "ls_aiLessons (new_LessonsStorage small_env) = Some [lesson_a]"
    "ls_aiLessons (new_LessonsStorage readonly_env) = Some [lesson_a]"
    by (simp_all add: new_LessonsStorage_def small_env_def readonly_env_def quiet_env_def)
  show ?thesis
    using saveAllLessons_quota [OF a(1), of "[lesson_a, lesson_b]" unknown_error]
      saveAllLessons_quota [OF c(1), of "[lesson_b]" unknown_error]
      saveAllLessons_quota [OF d(1), of "[lesson_b]" unknown_error] a c d example_errors
    by (simp add: vals init_frame)
qed




text \<open>
  C10. Under the fallback backend \<^verbatim>\<open>deleteLesson(id)\<close> is \<^verbatim>\<open>getAllLessons()\<close>, then
  \<^verbatim>\<open>saveAllLessons\<close> of the records whose id differs from the given one. So it writes the
  whole filtered array, and when that write is refused it rejects as \<^verbatim>\<open>saveAllLessons\<close>
  does and leaves the entry as it was: with the quota error when the filtered array
  exceeds the capacity, with the provider's error when the write fails otherwise. (A
  component that could not be initialized, because \<^verbatim>\<open>indexedDB.open\<close> throws, has
  selected no backend: there \<^verbatim>\<open>deleteLesson\<close> is the same composition, and rejects with
  that exception at its first step.)
\<close>

theorem deleteLesson_fallback:
  assumes "backendKind (snd (init w)) = SynchronousFallback"
  shows "deleteLesson k w =
       await (getAllLessons w) (\<lambda>lessons. saveAllLessons (filter (\<lambda>l. lid l \<noteq> k) lessons)) \<and>
     (initialized (snd (init w)) \<longrightarrow>
       (ls_size w (filter (\<lambda>l. lid l \<noteq> k) (ls_array w)) \<le> ls_capacity w \<and>
        setItem_error w (filter (\<lambda>l. lid l \<noteq> k) (ls_array w)) = None \<longrightarrow>
          fst (deleteLesson k w) = Resolved True \<and>
          ls_aiLessons (snd (deleteLesson k w)) = Some (filter (\<lambda>l. lid l \<noteq> k) (ls_array w))) \<and>
       (ls_capacity w < ls_size w (filter (\<lambda>l. lid l \<noteq> k) (ls_array w)) \<longrightarrow>
          fst (deleteLesson k w) = Rejected lesson_too_large \<and>
          ls_aiLessons (snd (deleteLesson k w)) = ls_aiLessons w) \<and>
       (\<forall>e. ls_size w (filter (\<lambda>l. lid l \<noteq> k) (ls_array w)) \<le> ls_capacity w \<and>
            setItem_error w (filter (\<lambda>l. lid l \<noteq> k) (ls_array w)) = Some e \<longrightarrow>
          fst (deleteLesson k w) = Rejected (if is_quota e then lesson_too_large else e) \<and>
          ls_aiLessons (snd (deleteLesson k w)) = ls_aiLessons w)) \<and>
     (\<forall>e'. fst (init w) = Rejected e' \<longrightarrow>
        fst (deleteLesson k w) = Rejected e' \<and>
        ls_aiLessons (snd (deleteLesson k w)) = ls_aiLessons w)"
proof (cases "initialized (snd (init w))")
  case ini: True
  let ?w1 = "snd (init w)"
  let ?kept = "filter (\<lambda>l. lid l \<noteq> k) (ls_array w)"
  have fb: "\<not> transactional ?w1" using assms by (simp add: fallback_iff)
  have res: "\<And>e'. fst (init w) \<noteq> Rejected e'"
    using ini init_resolves_iff [of w] by simp
  have all: "getAllLessons w = (Resolved (ls_array w), ?w1)"
    by (subst getAllLessons_init [OF ini]) (simp add: getAllLessons_fallback ini fb)
  have del: "deleteLesson k w = saveAllLessons ?kept ?w1"
    by (subst deleteLesson_init [OF ini]) (simp add: deleteLesson_def ini fb getAllLessons_fallback)
  have sav: "saveAllLessons ?kept ?w1 =
       (case setItem_outcome w ?kept of
          None \<Rightarrow> (Resolved True, ?w1\<lparr>ls_aiLessons := Some ?kept\<rparr>)
        | Some e \<Rightarrow> (Rejected (if is_quota e then lesson_too_large else e), ?w1))"
    by (simp add: saveAllLessons_fallback ini fb)
  have composed: "deleteLesson k w =
       await (getAllLessons w) (\<lambda>lessons. saveAllLessons (filter (\<lambda>l. lid l \<noteq> k) lessons))"
    by (simp add: all del)
  have fits: "deleteLesson k w = (Resolved True, ?w1\<lparr>ls_aiLessons := Some ?kept\<rparr>)"
    if "ls_size w ?kept \<le> ls_capacity w" and "setItem_error w ?kept = None"
    using that by (simp add: del sav setItem_outcome_fits)
  have over: "deleteLesson k w = (Rejected lesson_too_large, ?w1)"
    if "ls_capacity w < ls_size w ?kept"
    using that by (simp add: del sav setItem_outcome_over example_errors)
  have other: "deleteLesson k w = (Rejected (if is_quota e then lesson_too_large else e), ?w1)"
    if "ls_size w ?kept \<le> ls_capacity w" and "setItem_error w ?kept = Some e" for e
    using that by (simp add: del sav setItem_outcome_fits)
  show ?thesis
    using fits over other res by (simp add: composed [symmetric] init_frame)
next
  case False
  from init_rejected [OF this] obtain e where
    i: "init w = (Rejected e, w\<lparr>open_calls := open_calls w + 1\<rparr>)" by blast
  have del: "deleteLesson k w = (Rejected e, w\<lparr>open_calls := open_calls w + 1\<rparr>)"
    and all: "getAllLessons w = (Rejected e, w\<lparr>open_calls := open_calls w + 1\<rparr>)"
    using operations_init_rejected [OF i] by simp_all
  show ?thesis
    using False by (simp add: del all i)
qed

text \<open>
  Deleting lesson 1 of three from a store with room for one: the two that remain do not
  fit and the deletion rejects with the quota error, nothing deleted. From a store that
  refuses every write: the provider's error. From the store with one lesson: it is
  deleted. In the browser that denies the page its storage: the exception of
  \<^verbatim>\<open>indexedDB.open\<close>.
\<close>

theorem deleteLesson_fallback_witness:
  "backendKind (snd (init (new_LessonsStorage crowded_env))) = SynchronousFallback \<and>
   initialized (snd (init (new_LessonsStorage crowded_env))) \<and>
   ls_capacity (new_LessonsStorage crowded_env)
     < ls_size (new_LessonsStorage crowded_env)
         (filter (\<lambda>l. lid l \<noteq> 1) (ls_array (new_LessonsStorage crowded_env))) \<and>
   fst (deleteLesson 1 (new_LessonsStorage crowded_env)) = Rejected lesson_too_large \<and>
   ls_aiLessons (snd (deleteLesson 1 (new_LessonsStorage crowded_env)))
     = Some [lesson_a, lesson_b, lesson_c] \<and>
   backendKind (snd (init (new_LessonsStorage readonly_env))) = SynchronousFallback \<and>
   initialized (snd (init (new_LessonsStorage readonly_env))) \<and>
   setItem_error (new_LessonsStorage readonly_env)
     (filter (\<lambda>l. lid l \<noteq> 1) (ls_array (new_LessonsStorage readonly_env))) = Some unknown_error \<and>
   fst (deleteLesson 1 (new_LessonsStorage readonly_env)) = Rejected unknown_error \<and>
   backendKind (snd (init (new_LessonsStorage small_env))) = SynchronousFallback \<and>
   initialized (snd (init (new_LessonsStorage small_env))) \<and>
   setItem_error (new_LessonsStorage small_env)
     (filter (\<lambda>l. lid l \<noteq> 1) (ls_array (new_LessonsStorage small_env))) = None \<and>
   fst (deleteLesson 1 (new_LessonsStorage small_env)) = Resolved True \<and>
   ls_aiLessons (snd (deleteLesson 1 (new_LessonsStorage small_env))) = Some [] \<and>
   backendKind (snd (init (new_LessonsStorage denied_env))) = SynchronousFallback \<and>
   fst (init (new_LessonsStorage denied_env)) = Rejected security_error \<and>
   fst (deleteLesson 1 (new_LessonsStorage denied_env)) = Rejected security_error"
proof -
  have a: "backendKind (snd (init (new_LessonsStorage crowded_env))) = SynchronousFallback"
    "initialized (snd (init (new_LessonsStorage crowded_env)))"
    by (simp_all add: new_LessonsStorage_def crowded_env_def small_env_def quiet_env_def init_defs
        backendKind_def transactional_def)
  have b: "backendKind (snd (init (new_LessonsStorage readonly_env))) = SynchronousFallback"
    "initialized (snd (init (new_LessonsStorage readonly_env)))"
    by (simp_all add: new_LessonsStorage_def readonly_env_def quiet_env_def init_defs backendKind_def
        transactional_def)
  have c: "backendKind (snd (init (new_LessonsStorage small_env))) = SynchronousFallback"
    "initialized (snd (init (new_LessonsStorage small_env)))"
    by (simp_all add: new_LessonsStorage_def small_env_def quiet_env_def init_defs backendKind_def
        transactional_def)
  have d: "backendKind (snd (init (new_LessonsStorage denied_env))) = SynchronousFallback"
    "fst (init (new_LessonsStorage denied_env)) = Rejected security_error"
    by (simp_all add: new_LessonsStorage_def denied_env_def quiet_env_def init_defs backendKind_def
        transactional_def)
  have vals:
    "ls_array (new_LessonsStorage crowded_env) = [lesson_a, lesson_b, lesson_c]"
    "ls_array (new_LessonsStorage readonly_env) = [lesson_a]"
    "ls_array (new_LessonsStorage small_env) = [lesson_a]"
    "ls_aiLessons (new_LessonsStorage crowded_env) = Some [lesson_a, lesson_b, lesson_c]"
    "ls_capacity (new_LessonsStorage crowded_env) = 1"
    "ls_size (new_LessonsStorage crowded_env) = length"
    "ls_capacity (new_LessonsStorage readonly_env) = 1000"
    "ls_size (new_LessonsStorage readonly_env) = length"
    "ls_capacity (new_LessonsStorage small_env) = 1"
    "ls_size (new_LessonsStorage small_env) = length"
    "setItem_error (new_LessonsStorage readonly_env) [] = Some unknown_error"
    "setItem_error (new_LessonsStorage small_env) [] = None"
    by (simp_all add: new_LessonsStorage_def crowded_env_def readonly_env_def small_env_def
        quiet_env_def ls_array_def)
  have ids: "lid lesson_a = 1" "lid lesson_b = 2" "lid lesson_c = 3"
    by (simp_all add: lesson_a_def lesson_b_def lesson_c_def)
  show ?thesis
    using deleteLesson_fallback [OF a(1), of 1, THEN conjunct2]
      deleteLesson_fallback [OF b(1), of 1, THEN conjunct2]
      deleteLesson_fallback [OF c(1), of 1, THEN conjunct2]
      deleteLesson_fallback [OF d(1), of 1, THEN conjunct2] a b c d example_errors
    by (simp add: vals ids)
qed

section \<open>No operation touches the choice of backend\<close>

lemma same_component_refl [simp]: "same_component w w"
  by (simp add: same_component_def)

lemma same_component_trans:
  "same_component w w' \<Longrightarrow> same_component w' w'' \<Longrightarrow> same_component w w''"
  by (simp add: same_component_def)

lemma keepsI: "(\<And>w. initialized w \<Longrightarrow> same_component w (snd (f w))) \<Longrightarrow> keeps f"
  by (simp add: keeps_def)

lemma keepsD: "keeps f \<Longrightarrow> initialized w \<Longrightarrow> same_component w (snd (f w))"
  by (simp add: keeps_def)

lemma keeps_await:
  assumes f: "keeps f" and k: "\<And>v. keeps (k v)"
  shows "keeps (\<lambda>w. await (f w) k)"
proof (rule keepsI)
  fix w :: "'a world"
  assume ini: "initialized w"
  obtain r w1 where fw: "f w = (r, w1)" by (cases "f w")
  from keepsD [OF f ini] fw have s1: "same_component w w1" by simp
  then have ini1: "initialized w1" using ini by (simp add: same_component_def)
  show "same_component w (snd (await (f w) k))"
  proof (cases r)
    case (Resolved v)
    from keepsD [OF k ini1, of v] have "same_component w1 (snd (k v w1))" .
    with s1 show ?thesis by (simp add: fw Resolved same_component_trans)
  next
    case (Rejected e)
    with s1 show ?thesis by (simp add: fw)
  next
    case Pending
    with s1 show ?thesis by (simp add: fw)
  qed
qed

lemma keeps_init: "keeps init"
  by (simp add: keeps_def)

lemma keeps_saveLesson: "keeps (saveLesson lesson)"
  unfolding saveLesson_def
  by (rule keeps_await [OF keeps_init], rule keepsI)
    (simp add: same_component_def of_sync_def saveToLocalStorage_def setItem_def Let_def
      split: option.splits)

lemma keeps_getAllLessons: "keeps getAllLessons"
  unfolding getAllLessons_def
  by (rule keeps_await [OF keeps_init], rule keepsI)
    (simp add: same_component_def split: option.splits)

lemma keeps_getLesson: "keeps (getLesson k)"
  unfolding getLesson_def
  by (rule keeps_await [OF keeps_init], rule keepsI)
    (simp add: same_component_def getAllLessons_def split: option.splits)

lemma keeps_saveLesson_each: "keeps (saveLesson_each lessons)"
proof (induction lessons)
  case Nil
  show ?case by (simp add: keeps_def)
next
  case (Cons l ls)
  have "saveLesson_each (l # ls) = (\<lambda>w. await (saveLesson l w) (\<lambda>v. saveLesson_each ls))"
    by (rule ext) (simp add: await_def split: prod.splits promise.splits)
  then show ?case
    using keeps_await [OF keeps_saveLesson, of "\<lambda>v. saveLesson_each ls" l] Cons.IH by simp
qed

lemma keeps_saveAllLessons: "keeps (saveAllLessons lessons)"
proof -
  have clear: "keeps (\<lambda>w. saveLesson_each lessons (w\<lparr>idb_lessons := []\<rparr>))"
    using keeps_saveLesson_each [of lessons] by (simp add: keeps_def same_component_def)
  have "keeps (\<lambda>w. if transactional w then
         (case clear_error w of
            Some e \<Rightarrow> (Pending, w)
          | None \<Rightarrow>
              await (saveLesson_each lessons (w\<lparr>idb_lessons := []\<rparr>)) (\<lambda>_ w'. (Resolved True, w')))
       else
         (case setItem lessons w of
            Inr w' \<Rightarrow> (Resolved True, w')
          | Inl e \<Rightarrow>
              if is_quota e then (Rejected lesson_too_large, w) else (Rejected e, w)))"
  proof (rule keepsI)
    fix w :: "'a world"
    assume ini: "initialized w"
    have "same_component w (snd (await (saveLesson_each lessons (w\<lparr>idb_lessons := []\<rparr>)) (\<lambda>_ w'. (Resolved True, w'))))"
      using keepsD [OF keeps_await [OF clear, of "\<lambda>_ w'. (Resolved True, w')"] ini]
      by (simp add: keeps_def)
    then show "same_component w (snd (if transactional w then
         (case clear_error w of
            Some e \<Rightarrow> (Pending, w)
          | None \<Rightarrow>
              await (saveLesson_each lessons (w\<lparr>idb_lessons := []\<rparr>)) (\<lambda>_ w'. (Resolved True, w')))
       else
         (case setItem lessons w of
            Inr w' \<Rightarrow> (Resolved True, w')
          | Inl e \<Rightarrow>
              if is_quota e then (Rejected lesson_too_large, w) else (Rejected e, w))))"
      by (simp add: setItem_def same_component_def split: option.splits)
  qed
  then show ?thesis
    unfolding saveAllLessons_def by (intro keeps_await keeps_init)
qed

lemma keeps_deleteLesson: "keeps (deleteLesson k)"
proof -
  have "keeps (\<lambda>w. if transactional w then
         (case delete_error w k of
            None \<Rightarrow> (Resolved True, w\<lparr>idb_lessons := store_delete k (idb_lessons w)\<rparr>)
          | Some e \<Rightarrow> (Rejected e, w))
       else
         await (getAllLessons w) (\<lambda>lessons w'.
           saveAllLessons (filter (\<lambda>l. lid l \<noteq> k) lessons) w'))"
  proof (rule keepsI)
    fix w :: "'a world"
    assume ini: "initialized w"
    have "same_component w (snd (await (getAllLessons w) (\<lambda>lessons w'.
           saveAllLessons (filter (\<lambda>l. lid l \<noteq> k) lessons) w')))"
      by (rule keepsD [OF keeps_await [OF keeps_getAllLessons] ini]) (rule keeps_saveAllLessons)
    then show "same_component w (snd (if transactional w then
         (case delete_error w k of
            None \<Rightarrow> (Resolved True, w\<lparr>idb_lessons := store_delete k (idb_lessons w)\<rparr>)
          | Some e \<Rightarrow> (Rejected e, w))
       else
         await (getAllLessons w) (\<lambda>lessons w'.
           saveAllLessons (filter (\<lambda>l. lid l \<noteq> k) lessons) w')))"
      by (simp add: same_component_def split: option.splits)
  qed
  then show ?thesis
    unfolding deleteLesson_def by (intro keeps_await keeps_init)
qed

lemma keeps_saveMetadata: "keeps (saveMetadata key val)"
  unfolding saveMetadata_def
  by (rule keeps_await [OF keeps_init], rule keepsI)
    (simp add: same_component_def split: option.splits)

lemma keeps_getMetadata: "keeps (getMetadata key)"
  unfolding getMetadata_def
  by (rule keeps_await [OF keeps_init], rule keepsI)
    (simp add: same_component_def split: option.splits)

lemma keeps_getStorageInfo: "keeps getStorageInfo"
  unfolding getStorageInfo_def
  by (rule keeps_await [OF keeps_init], rule keepsI)
    (simp add: same_component_def getAllLessons_def Let_def split: option.splits)

lemma keeps_perform: "keeps (\<lambda>w. ((), perform c w))"
  using keeps_saveLesson keeps_getAllLessons keeps_getLesson keeps_deleteLesson
    keeps_saveAllLessons keeps_saveMetadata keeps_getMetadata keeps_getStorageInfo
  by (cases c) (simp_all add: keeps_def)

lemma keeps_migrate_body: "keeps migrate_body"
proof -
  have copy: "keeps (\<lambda>w1 :: 'a world. case ls_aiLessons w1 of
                  Some lessons \<Rightarrow>
                    await (saveLesson_each lessons w1) (\<lambda>_ w2.
                      (Resolved (), w2\<lparr>console := console w2 @ [LogMigrated (length lessons)]\<rparr>))
                | None \<Rightarrow> (Resolved (), w1))"
  proof (rule keepsI)
    fix w :: "'a world"
    assume ini: "initialized w"
    have "same_component w (snd (await (saveLesson_each lessons w) (\<lambda>_ w2.
                      (Resolved (), w2\<lparr>console := console w2 @ [LogMigrated (length lessons)]\<rparr>))))"
      for lessons
      by (rule keepsD [OF keeps_await [OF keeps_saveLesson_each] ini])
        (simp add: keeps_def same_component_def)
    then show "same_component w (snd (case ls_aiLessons w of
                  Some lessons \<Rightarrow>
                    await (saveLesson_each lessons w) (\<lambda>_ w2.
                      (Resolved (), w2\<lparr>console := console w2 @ [LogMigrated (length lessons)]\<rparr>))
                | None \<Rightarrow> (Resolved (), w)))"
      by (simp split: option.splits)
  qed
  have flag: "keeps (\<lambda>w3 :: 'a world. await (saveMetadata ''migrated'' (JBool True) w3) (\<lambda>_ w4. (Resolved (), w4)))"
    by (rule keeps_await [OF keeps_saveMetadata]) (simp add: keeps_def)
  have rest: "keeps (\<lambda>w1 :: 'a world.
       if truthy migrated then (Resolved (), w1)
       else
         await (case ls_aiLessons w1 of
                  Some lessons \<Rightarrow>
                    await (saveLesson_each lessons w1) (\<lambda>_ w2.
                      (Resolved (), w2\<lparr>console := console w2 @ [LogMigrated (length lessons)]\<rparr>))
                | None \<Rightarrow> (Resolved (), w1))
           (\<lambda>_ w3. await (saveMetadata ''migrated'' (JBool True) w3) (\<lambda>_ w4. (Resolved (), w4))))"
    for migrated
  proof (cases "truthy migrated")
    case True
    then show ?thesis by (simp add: keeps_def)
  next
    case False
    have "keeps (\<lambda>w1 :: 'a world.
         await (case ls_aiLessons w1 of
                  Some lessons \<Rightarrow>
                    await (saveLesson_each lessons w1) (\<lambda>_ w2.
                      (Resolved (), w2\<lparr>console := console w2 @ [LogMigrated (length lessons)]\<rparr>))
                | None \<Rightarrow> (Resolved (), w1))
           (\<lambda>_ w3. await (saveMetadata ''migrated'' (JBool True) w3) (\<lambda>_ w4. (Resolved (), w4))))"
      by (rule keeps_await [OF copy]) (rule flag)
    with False show ?thesis by simp
  qed
  show ?thesis
    unfolding migrate_body_def by (rule keeps_await [OF keeps_getMetadata]) (rule rest)
qed

lemma keeps_migrateFromLocalStorage: "keeps migrateFromLocalStorage"
proof (rule keepsI)
  fix w :: "'a world"
  assume "initialized w"
  from keepsD [OF keeps_migrate_body this]
  show "same_component w (snd (migrateFromLocalStorage w))"
    by (cases "migrate_body w")
      (auto simp add: migrateFromLocalStorage_def same_component_def split: promise.splits)
qed

lemma continue_copy_same: "same_component w (snd (continue_copy lessons n w))"
  by (simp add: continue_copy_def same_component_def split: list.splits)

lemma migration_step_same:
  assumes ini: "initialized w"
  shows "same_component w (snd (migration_step m w))"
proof (cases m)
  case ReadingFlag
  from keepsD [OF keeps_getMetadata ini, of "''migrated''"]
  have s: "same_component w (snd (getMetadata ''migrated'' w))" .
  obtain r w1 where g: "getMetadata ''migrated'' w = (r, w1)" by (cases "getMetadata ''migrated'' w")
  from s g have s1: "same_component w w1" by simp
  have "same_component w1 (snd (continue_copy lessons n w1))" for lessons n
    by (rule continue_copy_same)
  from same_component_trans [OF s1 this] s1 show ?thesis
    by (cases r) (simp_all add: ReadingFlag g same_component_def split: option.splits)
next
  case (Saving lessons n)
  show ?thesis
  proof (cases lessons)
    case Nil
    with Saving show ?thesis by (simp add: continue_copy_same)
  next
    case (Cons l ls)
    from keepsD [OF keeps_saveLesson ini, of l]
    have s: "same_component w (snd (saveLesson l w))" .
    obtain r w1 where g: "saveLesson l w = (r, w1)" by (cases "saveLesson l w")
    from s g have s1: "same_component w w1" by simp
    have "same_component w1 (snd (continue_copy ls n w1))"
      by (rule continue_copy_same)
    from same_component_trans [OF s1 this] s1 show ?thesis
      by (cases r) (simp_all add: Saving Cons g same_component_def)
  qed
next
  case SettingFlag
  from keepsD [OF keeps_saveMetadata ini, of "''migrated''" "JBool True"]
  have s: "same_component w (snd (saveMetadata ''migrated'' (JBool True) w))" .
  obtain r w1 where g: "saveMetadata ''migrated'' (JBool True) w = (r, w1)"
    by (cases "saveMetadata ''migrated'' (JBool True) w")
  from s g have s1: "same_component w w1" by simp
  then show ?thesis
    by (cases r) (simp_all add: SettingFlag g same_component_def)
next
  case Ended
  then show ?thesis by simp
next
  case Stalled
  then show ?thesis by simp
qed

lemma fire_same:
  assumes "initialized w" and "open_pending w = 0" and "fire ev w = Some w'"
  shows "same_component w w'"
proof (cases ev)
  case Enter
  with assms show ?thesis by (simp add: init_call_def)
next
  case (Answer outcome h)
  with assms show ?thesis by simp
next
  case (Call c)
  with assms keepsD [OF keeps_perform, of w c] show ?thesis by auto
next
  case (Migrate i)
  with assms migration_step_same [of w "migrations w ! i"] show ?thesis
    by (cases "migration_step (migrations w ! i) w")
      (auto simp add: same_component_def split: if_splits)
qed

lemma run_same:
  "initialized w \<Longrightarrow> open_pending w = 0 \<Longrightarrow> run evs w = Some w' \<Longrightarrow> same_component w w'"
proof (induction evs arbitrary: w)
  case Nil
  then show ?case by simp
next
  case (Cons ev evs)
  from Cons.prems(3) obtain w1 where f: "fire ev w = Some w1" and r: "run evs w1 = Some w'"
    by (auto split: option.splits)
  from fire_same [OF Cons.prems(1,2) f] have s: "same_component w w1" .
  then have "initialized w1" "open_pending w1 = 0"
    using Cons.prems(1,2) by (simp_all add: same_component_def)
  from Cons.IH [OF this r] s show ?case by (rule same_component_trans [rotated])
qed

lemma same_component_backendKind: "same_component w w' \<Longrightarrow> backendKind w' = backendKind w"
  by (simp add: same_component_def backendKind_def transactional_def)

lemma idb_ready_fields:
  "initialized idb_ready" "open_pending idb_ready = 0" "transactional idb_ready"
  "getAll_error idb_ready = None" "idb_lessons idb_ready = []"
  "put_error idb_ready = (\<lambda>l. None)" "get_error idb_ready = (\<lambda>k. None)"
  "migrations idb_ready = [ReadingFlag]" "ls_aiLessons idb_ready = None"
  "meta_get_error idb_ready = (\<lambda>k. None)" "meta_put_error idb_ready = (\<lambda>k. None)"
  "idb_metadata idb_ready = Map.empty" "put_log idb_ready = []"
  by (simp_all add: idb_ready_def new_LessonsStorage_def quiet_env_def init_defs transactional_def)


text \<open>
  C9, as amended. Once \<^verbatim>\<open>initialized\<close> is true, no public operation changes the backend
  choice: each of the eight leaves \<^verbatim>\<open>useIndexedDB\<close>, \<^verbatim>\<open>db\<close> and \<^verbatim>\<open>initialized\<close> as they
  were. When moreover no open request is still pending, nothing that can happen
  (callers entering, public operations, the migration) changes the backend kind, for
  the rest of the life of the process.
\<close>

theorem backend_fixed_once_initialized:
  assumes "initialized w"
  shows "backendKind (perform c w) = backendKind w \<and> initialized (perform c w) \<and>
     (open_pending w = 0 \<longrightarrow>
        (\<forall>evs w'. run evs w = Some w' \<longrightarrow> backendKind w' = backendKind w \<and> initialized w'))"
proof -
  from keepsD [OF keeps_perform assms, of c] have p: "same_component w (perform c w)" by simp
  have one: "backendKind (perform c w) = backendKind w \<and> initialized (perform c w)"
    using same_component_backendKind [OF p] p assms by (simp add: same_component_def)
  have "backendKind w' = backendKind w \<and> initialized w'"
    if "open_pending w = 0" and "run evs w = Some w'" for evs w'
  proof -
    from run_same [OF assms that] have s: "same_component w w'" .
    from same_component_backendKind [OF s] s assms show ?thesis
      by (simp add: same_component_def)
  qed
  with one show ?thesis by blast
qed


text \<open>
  The initialized component of the first browser: a lookup of all lessons and a caller
  entering leave it as it is, and saving a lesson leaves the backend transactional.
\<close>

theorem backend_fixed_once_initialized_witness:
  "initialized idb_ready \<and> open_pending idb_ready = 0 \<and>
   run [Call GetAllLessons, Enter] idb_ready = Some idb_ready \<and>
   backendKind idb_ready = TransactionalStore \<and>
   backendKind (perform (SaveLesson lesson_a) idb_ready) = TransactionalStore \<and>
   initialized (perform (SaveLesson lesson_a) idb_ready)"
proof -
  have r: "run [Call GetAllLessons, Enter] idb_ready = Some idb_ready"
    by (simp add: getAllLessons_def init_call_def idb_ready_fields)
  have b: "backendKind idb_ready = TransactionalStore"
    by (simp add: backendKind_def idb_ready_fields)
  show ?thesis
    using backend_fixed_once_initialized [of idb_ready "SaveLesson lesson_a"] r b
    by (simp add: idb_ready_fields)
qed


text \<open>
  C9 as stated fails when an open request is still pending: two callers enter a fresh
  component, the first request is answered with a connection (the component is
  initialized, the backend is the transactional store), and the second request then
  fails: the backend is now the synchronous fallback.
\<close>

theorem stale_open_failure_switches_backend:
  "map_option initialized (run [Enter, Enter, Answer None 1] (new_LessonsStorage quiet_env))
     = Some True \<and>
   map_option backendKind (run [Enter, Enter, Answer None 1] (new_LessonsStorage quiet_env))
     = Some TransactionalStore \<and>
   map_option backendKind
     (run [Enter, Enter, Answer None 1, Answer (Some unknown_error) 2]
        (new_LessonsStorage quiet_env))
     = Some SynchronousFallback"
proof -
  have a: "\<not> initialized (new_LessonsStorage quiet_env)"
    by (simp add: new_LessonsStorage_def)
  have b: "has_indexedDB (new_LessonsStorage quiet_env)"
    "open_throws (new_LessonsStorage quiet_env) = None"
    by (simp_all add: new_LessonsStorage_def quiet_env_def)
  show ?thesis
    unfolding run_Enter_Enter [OF a b]
    by (simp add: answer_open_fields backendKind_answer_open new_LessonsStorage_def)
qed

section \<open>Migration of the legacy entry\<close>

lemma saveLesson_transactional:
  "initialized w \<Longrightarrow> transactional w \<Longrightarrow>
     saveLesson l w =
       (case put_error w l of
          None \<Rightarrow>
            (Resolved True,
             w\<lparr>idb_lessons := store_put l (idb_lessons w), put_log := put_log w @ [l]\<rparr>)
        | Some e \<Rightarrow>
            (Rejected e,
             w\<lparr>put_log := put_log w @ [l], console := console w @ [ErrorSaveFailed e]\<rparr>))"
  by (simp add: saveLesson_def)

lemma saveLesson_fallback:
  "initialized w \<Longrightarrow> \<not> transactional w \<Longrightarrow>
     saveLesson l w =
       (case setItem_outcome w (array_upsert l (ls_array w)) of
          None \<Rightarrow> (Resolved True, w\<lparr>ls_aiLessons := Some (array_upsert l (ls_array w))\<rparr>)
        | Some e \<Rightarrow> (Rejected (if is_quota e then data_too_large else e), w))"
  by (simp add: saveLesson_def of_sync_def saveToLocalStorage_def setItem_def split: option.splits)

lemma saveLesson_each_ok:
  "initialized w \<Longrightarrow> transactional w \<Longrightarrow> \<forall>l\<in>set ls. put_error w l = None \<Longrightarrow>
     saveLesson_each ls w =
       (Resolved (),
        w\<lparr>idb_lessons := fold store_put ls (idb_lessons w), put_log := put_log w @ ls\<rparr>)"
proof (induction ls arbitrary: w)
  case Nil
  then show ?case by simp
next
  case (Cons l ls)
  let ?w1 = "w\<lparr>idb_lessons := store_put l (idb_lessons w), put_log := put_log w @ [l]\<rparr>"
  have step: "saveLesson l w = (Resolved True, ?w1)"
    using Cons.prems by (simp add: saveLesson_transactional)
  have "saveLesson_each ls ?w1 =
       (Resolved (),
        ?w1\<lparr>idb_lessons := fold store_put ls (idb_lessons ?w1), put_log := put_log ?w1 @ ls\<rparr>)"
    using Cons.prems by (intro Cons.IH) (simp_all add: transactional_def)
  then show ?case by (simp add: step)
qed

lemma saveLesson_each_fail:
  "initialized w \<Longrightarrow> transactional w \<Longrightarrow> \<forall>l\<in>set pre. put_error w l = None \<Longrightarrow>
   put_error w x = Some e \<Longrightarrow>
     saveLesson_each (pre @ x # post) w =
       (Rejected e,
        w\<lparr>idb_lessons := fold store_put pre (idb_lessons w), put_log := put_log w @ pre @ [x],
          console := console w @ [ErrorSaveFailed e]\<rparr>)"
proof (induction pre arbitrary: w)
  case Nil
  then show ?case by (simp add: saveLesson_transactional)
next
  case (Cons l pre)
  let ?w1 = "w\<lparr>idb_lessons := store_put l (idb_lessons w), put_log := put_log w @ [l]\<rparr>"
  have step: "saveLesson l w = (Resolved True, ?w1)"
    using Cons.prems by (simp add: saveLesson_transactional)
  have "saveLesson_each (pre @ x # post) ?w1 =
       (Rejected e,
        ?w1\<lparr>idb_lessons := fold store_put pre (idb_lessons ?w1),
          put_log := put_log ?w1 @ pre @ [x], console := console ?w1 @ [ErrorSaveFailed e]\<rparr>)"
    using Cons.prems by (intro Cons.IH) (simp_all add: transactional_def)
  then show ?case by (simp add: step)
qed

lemma getMetadata_transactional:
  "initialized w \<Longrightarrow> transactional w \<Longrightarrow> meta_get_error w key = None \<Longrightarrow>
     getMetadata key w = (Resolved (meta_lookup key w), w)"
  by (simp add: getMetadata_def)

lemma saveMetadata_transactional:
  "initialized w \<Longrightarrow> transactional w \<Longrightarrow> meta_put_error w key = None \<Longrightarrow>
     saveMetadata key val w = (Resolved True, w\<lparr>idb_metadata := (idb_metadata w)(key \<mapsto> val)\<rparr>)"
  by (simp add: saveMetadata_def)

lemma migrate_aborts:
  assumes "initialized w" and "transactional w"
    and "meta_get_error w ''migrated'' = None" and "\<not> truthy (meta_lookup ''migrated'' w)"
    and "ls_aiLessons w = Some (pre @ x # post)"
    and "\<forall>l\<in>set pre. put_error w l = None" and "put_error w x = Some e"
  shows "migrateFromLocalStorage w =
       (Resolved (),
        w\<lparr>idb_lessons := fold store_put pre (idb_lessons w), put_log := put_log w @ pre @ [x],
          console := console w @ [ErrorSaveFailed e, ErrorMigration e]\<rparr>)"
proof -
  have "migrate_body w =
       (Rejected e,
        w\<lparr>idb_lessons := fold store_put pre (idb_lessons w), put_log := put_log w @ pre @ [x],
          console := console w @ [ErrorSaveFailed e]\<rparr>)"
    using assms
    by (simp add: migrate_body_def getMetadata_transactional saveLesson_each_fail)
  then show ?thesis by (simp add: migrateFromLocalStorage_def)
qed

lemma migrate_copies:
  assumes "initialized w" and "transactional w"
    and "meta_get_error w ''migrated'' = None" and "\<not> truthy (meta_lookup ''migrated'' w)"
    and "ls_aiLessons w = Some legacy"
    and "\<forall>l\<in>set legacy. put_error w l = None" and "meta_put_error w ''migrated'' = None"
  shows "migrateFromLocalStorage w =
       (Resolved (),
        w\<lparr>idb_lessons := fold store_put legacy (idb_lessons w), put_log := put_log w @ legacy,
          console := console w @ [LogMigrated (length legacy)],
          idb_metadata := (idb_metadata w)(''migrated'' \<mapsto> JBool True)\<rparr>)"
proof -
  let ?w2 = "w\<lparr>idb_lessons := fold store_put legacy (idb_lessons w), put_log := put_log w @ legacy,
          console := console w @ [LogMigrated (length legacy)]\<rparr>"
  have m: "saveMetadata ''migrated'' (JBool True) ?w2 =
      (Resolved True, ?w2\<lparr>idb_metadata := (idb_metadata ?w2)(''migrated'' \<mapsto> JBool True)\<rparr>)"
    using assms by (intro saveMetadata_transactional) (simp_all add: transactional_def)
  have "migrate_body w =
       (Resolved (), ?w2\<lparr>idb_metadata := (idb_metadata ?w2)(''migrated'' \<mapsto> JBool True)\<rparr>)"
    using assms
    by (simp add: migrate_body_def getMetadata_transactional saveLesson_each_ok m)
  then show ?thesis by (simp add: migrateFromLocalStorage_def)
qed

lemma migrate_noop:
  assumes "initialized w" and "transactional w"
    and "meta_get_error w ''migrated'' = None" and "truthy (meta_lookup ''migrated'' w)"
  shows "migrateFromLocalStorage w = (Resolved (), w)"
  using assms
  by (simp add: migrateFromLocalStorage_def migrate_body_def getMetadata_transactional)

lemma await_settles:
  assumes "fst m \<noteq> Pending" and "\<And>v s. fst (k v s) \<noteq> Pending"
  shows "fst (await m k) \<noteq> Pending"
  using assms by (cases m) (auto simp add: await_def split: promise.splits)

lemma saveLesson_settles: "fst (saveLesson l w) \<noteq> Pending"
  unfolding saveLesson_def
  by (rule await_settles [OF init_settles])
    (simp add: of_sync_def saveToLocalStorage_def setItem_def split: option.splits)

lemma saveLesson_each_settles: "fst (saveLesson_each ls w) \<noteq> Pending"
proof (induction ls arbitrary: w)
  case Nil
  show ?case by simp
next
  case (Cons l ls)
  from saveLesson_settles [of l w] Cons.IH show ?case
    by (cases "saveLesson l w") (auto split: promise.splits)
qed

lemma getMetadata_settles: "fst (getMetadata key w) \<noteq> Pending"
  unfolding getMetadata_def
  by (rule await_settles [OF init_settles]) (simp split: option.splits)

lemma saveMetadata_settles: "fst (saveMetadata key val w) \<noteq> Pending"
  unfolding saveMetadata_def
  by (rule await_settles [OF init_settles]) (simp split: option.splits)

lemma migrate_body_settles: "fst (migrate_body w) \<noteq> Pending"
  unfolding migrate_body_def
proof (rule await_settles [OF getMetadata_settles])
  fix migrated and w1 :: "'a world"
  have copy: "fst (case ls_aiLessons w1 of
                  Some lessons \<Rightarrow>
                    await (saveLesson_each lessons w1) (\<lambda>_ w2.
                      (Resolved (), w2\<lparr>console := console w2 @ [LogMigrated (length lessons)]\<rparr>))
                | None \<Rightarrow> (Resolved (), w1)) \<noteq> Pending"
    by (cases "ls_aiLessons w1") (simp_all add: await_settles saveLesson_each_settles)
  have "fst (await (case ls_aiLessons w1 of
                  Some lessons \<Rightarrow>
                    await (saveLesson_each lessons w1) (\<lambda>_ w2.
                      (Resolved (), w2\<lparr>console := console w2 @ [LogMigrated (length lessons)]\<rparr>))
                | None \<Rightarrow> (Resolved (), w1))
           (\<lambda>_ w3. await (saveMetadata ''migrated'' (JBool True) w3) (\<lambda>_ w4. (Resolved (), w4))))
        \<noteq> Pending"
    by (rule await_settles [OF copy]) (simp add: await_settles saveMetadata_settles)
  then show "fst (if truthy migrated then (Resolved (), w1)
       else
         await (case ls_aiLessons w1 of
                  Some lessons \<Rightarrow>
                    await (saveLesson_each lessons w1) (\<lambda>_ w2.
                      (Resolved (), w2\<lparr>console := console w2 @ [LogMigrated (length lessons)]\<rparr>))
                | None \<Rightarrow> (Resolved (), w1))
           (\<lambda>_ w3. await (saveMetadata ''migrated'' (JBool True) w3) (\<lambda>_ w4. (Resolved (), w4))))
        \<noteq> Pending"
    by simp
qed

lemma migrate_resolves: "fst (migrateFromLocalStorage w) = Resolved ()"
  using migrate_body_settles [of w]
  by (cases "migrate_body w") (auto simp add: migrateFromLocalStorage_def split: promise.splits)

text \<open>
  A migration that runs alone, one step after the other, does what
  \<^verbatim>\<open>migrateFromLocalStorage\<close> does when it runs from its call to its end.
\<close>

lemma drive_Ended [simp]: "drive k Ended w = (Ended, w)"
  by (induction k) simp_all

lemma drive_SettingFlag:
  "drive (Suc j) SettingFlag w =
     (Ended,
      snd (case await (saveMetadata ''migrated'' (JBool True) w) (\<lambda>_ w4. (Resolved (), w4)) of
             (Rejected error, w') \<Rightarrow>
               (Resolved (), w'\<lparr>console := console w' @ [ErrorMigration error]\<rparr>)
           | r \<Rightarrow> r))"
proof -
  obtain r w1 where g: "saveMetadata ''migrated'' (JBool True) w = (r, w1)"
    by (cases "saveMetadata ''migrated'' (JBool True) w")
  with saveMetadata_settles [of "''migrated''" "JBool True" w] have "r \<noteq> Pending" by simp
  then show ?thesis by (cases r) (simp_all add: g)
qed

lemma drive_Saving:
  "drive (length ls + 2 + j) (Saving (l # ls) n) w =
     (Ended,
      snd (case await
                  (await (saveLesson_each (l # ls) w) (\<lambda>_ w2.
                     (Resolved (), w2\<lparr>console := console w2 @ [LogMigrated n]\<rparr>)))
                  (\<lambda>_ w3. await (saveMetadata ''migrated'' (JBool True) w3)
                     (\<lambda>_ w4. (Resolved (), w4))) of
             (Rejected error, w') \<Rightarrow>
               (Resolved (), w'\<lparr>console := console w' @ [ErrorMigration error]\<rparr>)
           | r \<Rightarrow> r))"
proof (induction ls arbitrary: l w)
  case Nil
  obtain r w1 where g: "saveLesson l w = (r, w1)" by (cases "saveLesson l w")
  with saveLesson_settles [of l w] have "r \<noteq> Pending" by simp
  then show ?case
  proof (cases r)
    case (Resolved v)
    have "drive (length ([] :: 'a lesson list) + 2 + j) (Saving [l] n) w =
        drive (Suc j) SettingFlag (w1\<lparr>console := console w1 @ [LogMigrated n]\<rparr>)"
      by (simp add: g Resolved continue_copy_def)
    also note drive_SettingFlag
    finally show ?thesis by (simp add: g Resolved)
  next
    case (Rejected e)
    then show ?thesis by (simp add: g)
  qed simp
next
  case (Cons l' ls)
  obtain r w1 where g: "saveLesson l w = (r, w1)" by (cases "saveLesson l w")
  with saveLesson_settles [of l w] have "r \<noteq> Pending" by simp
  then show ?case
  proof (cases r)
    case (Resolved v)
    have "drive (length (l' # ls) + 2 + j) (Saving (l # l' # ls) n) w =
        drive (length ls + 2 + j) (Saving (l' # ls) n) w1"
      by (simp add: g Resolved continue_copy_def)
    also note Cons.IH [of l' w1]
    finally show ?thesis by (simp add: g Resolved)
  next
    case (Rejected e)
    then show ?thesis by (simp add: g)
  qed simp
qed

lemma getMetadata_entry: "ls_aiLessons (snd (getMetadata key w)) = ls_aiLessons w"
proof -
  obtain r w1 where i: "init w = (r, w1)" by (cases "init w")
  with init_frame(1) [of w] have "ls_aiLessons w1 = ls_aiLessons w" by simp
  then show ?thesis
    by (cases r) (simp_all add: getMetadata_def i split: option.splits)
qed

lemma drive_ReadingFlag:
  "drive (length (ls_array w) + 2 + j) ReadingFlag w = (Ended, snd (migrateFromLocalStorage w))"
proof -
  obtain r w1 where g: "getMetadata ''migrated'' w = (r, w1)"
    by (cases "getMetadata ''migrated'' w")
  with getMetadata_settles [of "''migrated''" w] have np: "r \<noteq> Pending" by simp
  from getMetadata_entry [of "''migrated''" w] g have e: "ls_aiLessons w1 = ls_aiLessons w" by simp
  show ?thesis
  proof (cases r)
    case (Resolved migrated)
    show ?thesis
    proof (cases "truthy migrated")
      case True
      then show ?thesis
        by (simp add: g Resolved migrateFromLocalStorage_def migrate_body_def)
    next
      case False
      show ?thesis
      proof (cases "ls_aiLessons w")
        case None
        have "drive (length (ls_array w) + 2 + j) ReadingFlag w = drive (Suc j) SettingFlag w1"
          using False by (simp add: g Resolved e None ls_array_def)
        also note drive_SettingFlag
        finally show ?thesis
          using False by (simp add: g Resolved e None migrateFromLocalStorage_def migrate_body_def)
      next
        case (Some lessons)
        show ?thesis
        proof (cases lessons)
          case Nil
          have "drive (length (ls_array w) + 2 + j) ReadingFlag w =
              drive (Suc j) SettingFlag (w1\<lparr>console := console w1 @ [LogMigrated 0]\<rparr>)"
            using False by (simp add: g Resolved e Some Nil ls_array_def continue_copy_def)
          also note drive_SettingFlag
          finally show ?thesis
            using False
            by (simp add: g Resolved e Some Nil migrateFromLocalStorage_def migrate_body_def)
        next
          case (Cons l ls)
          have "drive (length (ls_array w) + 2 + j) ReadingFlag w =
              drive (length ls + 2 + j) (Saving (l # ls) (length (l # ls))) w1"
            using False by (simp add: g Resolved e Some Cons ls_array_def continue_copy_def)
          also note drive_Saving [of ls j l "length (l # ls)" w1]
          finally show ?thesis
            using False
            by (simp add: g Resolved e Some Cons migrateFromLocalStorage_def migrate_body_def)
        qed
      qed
    qed
  next
    case (Rejected e)
    then show ?thesis by (simp add: g migrateFromLocalStorage_def migrate_body_def)
  next
    case Pending
    with np show ?thesis by simp
  qed
qed

lemma first_running_append:
  "\<forall>m\<in>set ms. \<not> running m \<Longrightarrow> first_running (ms @ [ReadingFlag]) = Some (length ms)"
  by (induction ms) (simp_all add: running_def)

lemma run_migration_alone:
  assumes "first_running (migrations w) = Some i" and "migrations w ! i = ReadingFlag"
  shows "run_migration w =
     (snd (migrateFromLocalStorage w))
       \<lparr>migrations := (migrations (snd (migrateFromLocalStorage w)))[i := Ended]\<rparr>"
  using assms drive_ReadingFlag [of w 0]
  by (simp add: run_migration_def steps_left_def)

text \<open>
  The operations a migration awaits do not look at the migrations under way, nor touch
  them.
\<close>

lemma getMetadata_migrations:
  "initialized w \<Longrightarrow>
     getMetadata key (w\<lparr>migrations := ms\<rparr>) =
       (fst (getMetadata key w), (snd (getMetadata key w))\<lparr>migrations := ms\<rparr>)"
  by (auto simp add: getMetadata_def transactional_def meta_lookup_def split: option.splits)

lemma saveMetadata_migrations:
  "initialized w \<Longrightarrow>
     saveMetadata key val (w\<lparr>migrations := ms\<rparr>) =
       (fst (saveMetadata key val w), (snd (saveMetadata key val w))\<lparr>migrations := ms\<rparr>)"
  by (auto simp add: saveMetadata_def transactional_def split: option.splits)

lemma saveLesson_migrations:
  assumes "initialized w"
  shows "saveLesson l (w\<lparr>migrations := ms\<rparr>) =
       (fst (saveLesson l w), (snd (saveLesson l w))\<lparr>migrations := ms\<rparr>)"
proof (cases "transactional w")
  case True
  then have t: "transactional (w\<lparr>migrations := ms\<rparr>)" by (simp add: transactional_def)
  have i: "initialized (w\<lparr>migrations := ms\<rparr>)" using assms by simp
  show ?thesis
    unfolding saveLesson_transactional [OF i t] saveLesson_transactional [OF assms True]
    by (simp split: option.splits)
next
  case False
  then have t: "\<not> transactional (w\<lparr>migrations := ms\<rparr>)" by (simp add: transactional_def)
  have i: "initialized (w\<lparr>migrations := ms\<rparr>)" using assms by simp
  have s: "setItem_outcome (w\<lparr>migrations := ms\<rparr>) v = setItem_outcome w v" for v
    by (simp add: setItem_outcome_def)
  have a: "ls_array (w\<lparr>migrations := ms\<rparr>) = ls_array w" by (simp add: ls_array_def)
  show ?thesis
    unfolding saveLesson_fallback [OF i t] saveLesson_fallback [OF assms False] s a
    by (simp split: option.splits)
qed

lemma migration_step_migrations:
  assumes "initialized w"
  shows "migration_step m (w\<lparr>migrations := ms\<rparr>) =
     (fst (migration_step m w), (snd (migration_step m w))\<lparr>migrations := ms\<rparr>)"
proof (cases m)
  case ReadingFlag
  show ?thesis
    unfolding ReadingFlag migration_step.simps getMetadata_migrations [OF assms]
    by (cases "getMetadata ''migrated'' w")
      (simp add: continue_copy_def split: promise.splits option.splits list.splits)
next
  case (Saving lessons n)
  show ?thesis
  proof (cases lessons)
    case Nil
    with Saving show ?thesis by (simp add: continue_copy_def)
  next
    case (Cons l ls)
    show ?thesis
      unfolding Saving Cons migration_step.simps saveLesson_migrations [OF assms]
      by (cases "saveLesson l w")
        (simp add: continue_copy_def split: promise.splits list.splits)
  qed
next
  case SettingFlag
  show ?thesis
    unfolding SettingFlag migration_step.simps saveMetadata_migrations [OF assms]
    by (cases "saveMetadata ''migrated'' (JBool True) w") (simp split: promise.splits)
next
  case Ended
  then show ?thesis by simp
next
  case Stalled
  then show ?thesis by simp
qed

lemma migration_step_keeps_migrations:
  assumes "initialized w"
  shows "migrations (snd (migration_step m w)) = migrations w"
proof -
  have "migrations (snd (migration_step m (w\<lparr>migrations := migrations w\<rparr>))) = migrations w"
    unfolding migration_step_migrations [OF assms] by simp
  then show ?thesis by simp
qed

lemma drive_migrations:
  "initialized w \<Longrightarrow>
     drive k m (w\<lparr>migrations := ms\<rparr>) = (fst (drive k m w), (snd (drive k m w))\<lparr>migrations := ms\<rparr>)"
proof (induction k arbitrary: m w)
  case 0
  show ?case by simp
next
  case (Suc k)
  obtain m1 w1 where st: "migration_step m w = (m1, w1)" by (cases "migration_step m w")
  from migration_step_same [OF Suc.prems, of m] st Suc.prems have "initialized w1"
    by (simp add: same_component_def)
  from Suc.IH [OF this, of m1] show ?case
    by (simp add: migration_step_migrations [OF Suc.prems] st)
qed

lemma drive_not_running: "\<not> running m \<Longrightarrow> drive k m w = (m, w)"
  by (induction k) (auto simp add: running_def)

text \<open>
  The steps of one migration, made with nothing in between, are a run of the process:
  events \<open>Migrate i\<close> one after the other.
\<close>

lemma drive_is_run:
  "initialized w \<Longrightarrow> i < length (migrations w) \<Longrightarrow>
     \<exists>evs. set evs \<subseteq> {Migrate i} \<and>
       run evs w =
         Some ((snd (drive k (migrations w ! i) w))
                 \<lparr>migrations := (migrations w)[i := fst (drive k (migrations w ! i) w)]\<rparr>)"
proof (induction k arbitrary: w)
  case 0
  have "run [] w = Some (w\<lparr>migrations := (migrations w)[i := migrations w ! i]\<rparr>)"
    by simp
  then show ?case by (intro exI [of _ "[]"]) simp
next
  case (Suc k)
  let ?m = "migrations w ! i"
  show ?case
  proof (cases "running ?m")
    case False
    have "run [] w = Some (w\<lparr>migrations := (migrations w)[i := ?m]\<rparr>)"
      by simp
    then show ?thesis
      by (intro exI [of _ "[]"]) (simp add: drive_not_running [OF False] del: drive.simps)
  next
    case True
    obtain m1 w1 where st: "migration_step ?m w = (m1, w1)" by (cases "migration_step ?m w")
    from migration_step_same [OF Suc.prems(1), of ?m] st Suc.prems(1) have i1: "initialized w1"
      by (simp add: same_component_def)
    from migration_step_keeps_migrations [OF Suc.prems(1), of ?m] st
    have ms1: "migrations w1 = migrations w" by simp
    let ?w2 = "w1\<lparr>migrations := (migrations w)[i := m1]\<rparr>"
    have f: "fire (Migrate i) w = Some ?w2"
      using True Suc.prems(2) by (simp add: st ms1)
    have i2: "initialized ?w2" "i < length (migrations ?w2)" "migrations ?w2 ! i = m1"
      using i1 Suc.prems(2) by simp_all
    from Suc.IH [OF i2(1,2)] obtain evs where
      evs: "set evs \<subseteq> {Migrate i}"
      and r: "run evs ?w2 =
         Some ((snd (drive k m1 ?w2))\<lparr>migrations := (migrations ?w2)[i := fst (drive k m1 ?w2)]\<rparr>)"
      unfolding i2(3) by blast
    have d: "drive k m1 ?w2 =
        (fst (drive k m1 w1), (snd (drive k m1 w1))\<lparr>migrations := (migrations w)[i := m1]\<rparr>)"
      using i1 by (rule drive_migrations)
    have "run (Migrate i # evs) w =
        Some ((snd (drive k m1 w1))\<lparr>migrations := (migrations w)[i := fst (drive k m1 w1)]\<rparr>)"
      using f r by (simp add: d del: fire.simps)
    moreover have "drive (Suc k) ?m w = drive k m1 w1" by (simp add: st)
    ultimately show ?thesis
      using evs by (intro exI [of _ "Migrate i # evs"]) (simp del: drive.simps fire.simps)
  qed
qed

lemma first_running_less: "first_running ms = Some i \<Longrightarrow> i < length ms"
  by (induction ms arbitrary: i) (auto split: if_splits)

lemma migrations_drive:
  "initialized w \<Longrightarrow> migrations (snd (drive k m w)) = migrations w"
proof (induction k arbitrary: m w)
  case 0
  show ?case by simp
next
  case (Suc k)
  obtain m1 w1 where st: "migration_step m w = (m1, w1)" by (cases "migration_step m w")
  from migration_step_same [OF Suc.prems, of m] st Suc.prems have "initialized w1"
    by (simp add: same_component_def)
  from Suc.IH [OF this, of m1] migration_step_keeps_migrations [OF Suc.prems, of m] st
  show ?case by simp
qed

lemma run_migration_is_run:
  assumes "initialized w"
  shows "\<exists>evs. run evs w = Some (run_migration w)"
proof (cases "first_running (migrations w)")
  case None
  then have "run [] w = Some (run_migration w)" by (simp add: run_migration_def)
  then show ?thesis ..
next
  case (Some i)
  from first_running_less [OF Some] have i: "i < length (migrations w)" .
  let ?k = "steps_left (migrations w ! i) w"
  from drive_is_run [OF assms i, of ?k] obtain evs where
    "run evs w =
       Some ((snd (drive ?k (migrations w ! i) w))
               \<lparr>migrations := (migrations w)[i := fst (drive ?k (migrations w ! i) w)]\<rparr>)"
    by blast
  moreover have "run_migration w =
      (snd (drive ?k (migrations w ! i) w))
        \<lparr>migrations := (migrations w)[i := fst (drive ?k (migrations w ! i) w)]\<rparr>"
    using migrations_drive [OF assms, of ?k "migrations w ! i"]
    by (cases "drive ?k (migrations w ! i) w") (simp add: run_migration_def Some)
  ultimately show ?thesis by auto
qed

lemma failing_put_ready_fields:
  "initialized failing_put_ready"
  "transactional failing_put_ready"
  "meta_get_error failing_put_ready = (\<lambda>k. None)"
  "idb_metadata failing_put_ready = Map.empty"
  "ls_aiLessons failing_put_ready = Some [lesson_a, lesson_b]"
  "put_error failing_put_ready lesson_a = Some unknown_error"
  "put_log failing_put_ready = []"
  "idb_lessons failing_put_ready = []"
  "migrations failing_put_ready = [ReadingFlag]"
  "console failing_put_ready = [LogInitialized]"
  by (simp_all add: failing_put_ready_def new_LessonsStorage_def failing_put_env_def quiet_env_def
      init_defs transactional_def lesson_a_def)

text \<open>
  C2, as amended. \<^verbatim>\<open>migrateFromLocalStorage\<close> never rejects, in any state. It saves the
  records of the legacy array one after the other, in array order, inside one
  \<^verbatim>\<open>try\<close> block: the first save that is rejected ends the migration. The records before
  it have been saved, the failing one has been attempted, those after it are not
  attempted, the \<^verbatim>\<open>migrated\<close> flag is not set, and the rejection is logged (by \<^verbatim>\<open>saveLesson\<close>
  and by the \<^verbatim>\<open>catch\<close> block).
\<close>

theorem migration_stops_at_first_failure:
  "fst (migrateFromLocalStorage w0) = Resolved () \<and>
   (initialized w \<and> transactional w \<and>
    meta_get_error w ''migrated'' = None \<and> \<not> truthy (meta_lookup ''migrated'' w) \<and>
    ls_aiLessons w = Some (pre @ x # post) \<and>
    (\<forall>l\<in>set pre. put_error w l = None) \<and> put_error w x = Some e \<longrightarrow>
      migrateFromLocalStorage w =
        (Resolved (),
         w\<lparr>idb_lessons := fold store_put pre (idb_lessons w),
           put_log := put_log w @ pre @ [x],
           console := console w @ [ErrorSaveFailed e, ErrorMigration e]\<rparr>))"
  using migrate_resolves [of w0] migrate_aborts [of w pre x post e] by blast



text \<open>
  The legacy entry holds lessons 1 and 2 and the provider refuses lesson 1: one \<^verbatim>\<open>put\<close>
  request, nothing stored, no flag, two errors on the console.
\<close>

theorem migration_stops_at_first_failure_witness:
  "initialized failing_put_ready \<and> transactional failing_put_ready \<and>
   meta_get_error failing_put_ready ''migrated'' = None \<and>
   \<not> truthy (meta_lookup ''migrated'' failing_put_ready) \<and>
   ls_aiLessons failing_put_ready = Some ([] @ lesson_a # [lesson_b]) \<and>
   put_error failing_put_ready lesson_a = Some unknown_error \<and>
   fst (migrateFromLocalStorage failing_put_ready) = Resolved () \<and>
   put_log (snd (migrateFromLocalStorage failing_put_ready)) = [lesson_a] \<and>
   idb_lessons (snd (migrateFromLocalStorage failing_put_ready)) = [] \<and>
   idb_metadata (snd (migrateFromLocalStorage failing_put_ready)) ''migrated'' = None \<and>
   console (snd (migrateFromLocalStorage failing_put_ready)) =
     [LogInitialized, ErrorSaveFailed unknown_error, ErrorMigration unknown_error]"
  using migration_stops_at_first_failure
    [of failing_put_ready failing_put_ready "[]" lesson_a "[lesson_b]" unknown_error]
  by (simp add: failing_put_ready_fields meta_lookup_def)


text \<open>
  C2 as stated fails: when the save of the first record fails, the second record is never
  attempted, and the flag is not set.
\<close>

theorem migration_skips_records_after_failure:
  "put_log (run_migration failing_put_ready) = [lesson_a] \<and>
   lesson_b \<notin> set (put_log (run_migration failing_put_ready)) \<and>
   idb_metadata (run_migration failing_put_ready) ''migrated'' = None"
proof -
  let ?w = "failing_put_ready"
  have run: "run_migration ?w =
      (snd (migrateFromLocalStorage ?w))
        \<lparr>migrations := (migrations (snd (migrateFromLocalStorage ?w)))[0 := Ended]\<rparr>"
    by (rule run_migration_alone) (simp_all add: failing_put_ready_fields running_def)
  have "migrateFromLocalStorage ?w =
       (Resolved (),
        ?w\<lparr>idb_lessons := fold store_put [] (idb_lessons ?w), put_log := put_log ?w @ [] @ [lesson_a],
          console := console ?w @ [ErrorSaveFailed unknown_error, ErrorMigration unknown_error]\<rparr>)"
    by (rule migrate_aborts [where post = "[lesson_b]"])
      (simp_all add: failing_put_ready_fields meta_lookup_def)
  then show ?thesis
    by (simp add: run failing_put_ready_fields lesson_a_def lesson_b_def)
qed

lemma store_put_ids: "lid ` set (store_put x ys) = insert (lid x) (lid ` set ys)"
  by (induction ys) auto

lemma store_put_new:
  "lid x \<notin> lid ` set ys \<Longrightarrow> mset (store_put x ys) = add_mset x (mset ys)"
  by (induction ys) auto

lemma fold_store_put_new:
  "distinct (map lid ls) \<Longrightarrow> lid ` set ls \<inter> lid ` set ys = {} \<Longrightarrow>
     mset (fold store_put ls ys) = mset ys + mset ls"
proof (induction ls arbitrary: ys)
  case Nil
  then show ?case by simp
next
  case (Cons l ls)
  from Cons.prems have new: "lid l \<notin> lid ` set ys" by auto
  from Cons.prems have "lid ` set ls \<inter> lid ` set (store_put l ys) = {}"
    by (auto simp add: store_put_ids)
  with Cons.prems Cons.IH [of "store_put l ys"]
  have "mset (fold store_put ls (store_put l ys)) = mset (store_put l ys) + mset ls"
    by simp
  with new show ?case by (simp add: store_put_new)
qed

lemma init_fresh_fields:
  assumes "has_indexedDB env" and "open_throws env = None" and "open_error env = None"
  shows "initialized (snd (init (new_LessonsStorage env)))"
    and "transactional (snd (init (new_LessonsStorage env)))"
    and "has_indexedDB (snd (init (new_LessonsStorage env)))"
    and "open_error (snd (init (new_LessonsStorage env))) = None"
    and "put_error (snd (init (new_LessonsStorage env))) = put_error env"
    and "meta_get_error (snd (init (new_LessonsStorage env))) = meta_get_error env"
    and "meta_put_error (snd (init (new_LessonsStorage env))) = meta_put_error env"
    and "ls_aiLessons (snd (init (new_LessonsStorage env))) = ls_aiLessons env"
    and "put_log (snd (init (new_LessonsStorage env))) = put_log env"
    and "migrations (snd (init (new_LessonsStorage env))) = migrations env @ [ReadingFlag]"
    and "1 \<le> idb_version (snd (init (new_LessonsStorage env)))"
    and "1 \<le> idb_version env \<Longrightarrow>
           idb_lessons (snd (init (new_LessonsStorage env))) = idb_lessons env \<and>
           idb_metadata (snd (init (new_LessonsStorage env))) = idb_metadata env"
    and "idb_lessons env = [] \<Longrightarrow> idb_lessons (snd (init (new_LessonsStorage env))) = []"
    and "\<not> truthy (meta_lookup key env) \<Longrightarrow>
           \<not> truthy (meta_lookup key (snd (init (new_LessonsStorage env))))"
    and "open_throws (snd (init (new_LessonsStorage env))) = None"
  using assms
  by (simp_all add: new_LessonsStorage_def init_defs transactional_def meta_lookup_def)

text \<open>
  C3, as amended. In a browser with IndexedDB where the open request succeeds, the
  \<^verbatim>\<open>lessons\<close> collection is empty, the \<^verbatim>\<open>migrated\<close> flag is not set, the legacy entry holds
  \<open>N\<close> records with pairwise distinct ids, no migration is running, and no request of the
  migration fails: the first initialization, once the migration it starts has run to
  its end, has left exactly those \<open>N\<close> records in the collection (one \<^verbatim>\<open>put\<close> request each,
  in array order) and the flag set to true. A second initialization that comes after
  the first copies nothing: in the same process, once the first has completed,
  \<^verbatim>\<open>init()\<close> returns at once and changes nothing; in a new process on the same database,
  once the migration has ended, the migration it starts finds the flag and makes no
  \<^verbatim>\<open>put\<close> request.
\<close>

theorem migration_copies_once:
  assumes idb: "has_indexedDB env" and nothrow: "open_throws env = None"
    and opn: "open_error env = None"
    and empty: "idb_lessons env = []" and flag: "\<not> truthy (meta_lookup ''migrated'' env)"
    and legacy: "ls_aiLessons env = Some legacy" and ids: "distinct (map lid legacy)"
    and puts: "\<forall>l\<in>set legacy. put_error env l = None"
    and mg: "meta_get_error env ''migrated'' = None"
    and mp: "meta_put_error env ''migrated'' = None"
    and quiet: "\<forall>m\<in>set (migrations env). \<not> running m"
  shows "let w1 = run_migration (snd (init (new_LessonsStorage env)));
             w2 = run_migration (snd (init (new_LessonsStorage w1)))
         in mset (idb_lessons w1) = mset legacy \<and>
            length (idb_lessons w1) = length legacy \<and>
            put_log w1 = put_log env @ legacy \<and>
            meta_lookup ''migrated'' w1 = Value (JBool True) \<and>
            migrations w1 = migrations env @ [Ended] \<and>
            init (snd (init (new_LessonsStorage env))) =
              (Resolved True, snd (init (new_LessonsStorage env))) \<and>
            init w1 = (Resolved True, w1) \<and>
            put_log w2 = put_log w1 \<and>
            idb_lessons w2 = idb_lessons w1 \<and>
            meta_lookup ''migrated'' w2 = Value (JBool True) \<and>
            migrations w2 = migrations w1 @ [Ended]"
proof -
  let ?w0 = "snd (init (new_LessonsStorage env))"
  note f = init_fresh_fields [OF idb nothrow opn]
  define w1 where "w1 = run_migration ?w0"
  have fr: "first_running (migrations ?w0) = Some (length (migrations env))"
    "migrations ?w0 ! length (migrations env) = ReadingFlag"
    using first_running_append [OF quiet] by (simp_all add: f)
  have run1: "w1 = (snd (migrateFromLocalStorage ?w0))
       \<lparr>migrations := (migrations (snd (migrateFromLocalStorage ?w0)))
          [length (migrations env) := Ended]\<rparr>"
    unfolding w1_def by (rule run_migration_alone [OF fr])
  have pre: "initialized ?w0" "transactional ?w0" "meta_get_error ?w0 ''migrated'' = None"
    "\<not> truthy (meta_lookup ''migrated'' ?w0)" "ls_aiLessons ?w0 = Some legacy"
    "\<forall>l\<in>set legacy. put_error ?w0 l = None" "meta_put_error ?w0 ''migrated'' = None"
    using f(1,2) f(14) [OF flag] legacy puts mg mp by (simp_all add: f)
  have w1: "w1 = ?w0\<lparr>idb_lessons := fold store_put legacy (idb_lessons ?w0),
          put_log := put_log ?w0 @ legacy,
          console := console ?w0 @ [LogMigrated (length legacy)],
          idb_metadata := (idb_metadata ?w0)(''migrated'' \<mapsto> JBool True),
          migrations := migrations env @ [Ended]\<rparr>"
    unfolding run1 by (simp add: migrate_copies [OF pre] f)
  have l0: "idb_lessons ?w0 = []" "put_log ?w0 = put_log env"
    by (simp_all add: f empty)
  have m: "mset (idb_lessons w1) = mset legacy"
    using fold_store_put_new [OF ids, of "[]"] by (simp add: w1 l0)
  then have len: "length (idb_lessons w1) = length legacy"
    by (metis size_mset)
  have lg: "put_log w1 = put_log env @ legacy" by (simp add: w1 l0)
  have fl: "meta_lookup ''migrated'' w1 = Value (JBool True)"
    by (simp add: w1 meta_lookup_def)
  have ms: "migrations w1 = migrations env @ [Ended]" by (simp add: w1)
  have ini: "init w1 = (Resolved True, w1)"
    using pre(1) by (simp add: w1)
  have env1: "has_indexedDB w1" "open_throws w1 = None" "open_error w1 = None"
    "1 \<le> idb_version w1" "meta_get_error w1 ''migrated'' = None"
    using f(3,4,11,15) mg by (simp_all add: w1 f)
  have quiet1: "\<forall>m\<in>set (migrations w1). \<not> running m"
    using quiet by (simp add: ms running_def)
  let ?v0 = "snd (init (new_LessonsStorage w1))"
  note g = init_fresh_fields [OF env1(1,2,3)]
  define w2 where "w2 = run_migration ?v0"
  have fr2: "first_running (migrations ?v0) = Some (length (migrations w1))"
    "migrations ?v0 ! length (migrations w1) = ReadingFlag"
    using first_running_append [OF quiet1] by (simp_all add: g)
  have run2: "w2 = (snd (migrateFromLocalStorage ?v0))
       \<lparr>migrations := (migrations (snd (migrateFromLocalStorage ?v0)))
          [length (migrations w1) := Ended]\<rparr>"
    unfolding w2_def by (rule run_migration_alone [OF fr2])
  have same: "idb_lessons ?v0 = idb_lessons w1" "idb_metadata ?v0 = idb_metadata w1"
    using g(12) [OF env1(4)] by simp_all
  have "truthy (meta_lookup ''migrated'' ?v0)"
    using fl by (simp add: meta_lookup_def same)
  then have "migrateFromLocalStorage ?v0 = (Resolved (), ?v0)"
    using g(1,2) env1(5) by (intro migrate_noop) (simp_all add: g)
  then have w2: "w2 = ?v0\<lparr>migrations := migrations w1 @ [Ended]\<rparr>"
    by (simp add: run2 g)
  have second: "put_log w2 = put_log w1" "idb_lessons w2 = idb_lessons w1"
    "meta_lookup ''migrated'' w2 = Value (JBool True)" "migrations w2 = migrations w1 @ [Ended]"
    using fl by (simp_all add: w2 g same meta_lookup_def)
  have ini0: "init ?w0 = (Resolved True, ?w0)"
    using pre(1) by simp
  show ?thesis
    unfolding Let_def w1_def [symmetric] w2_def [symmetric]
    using m len lg fl ms ini0 ini second by simp
qed

text \<open>A legacy entry of lessons 2 and 1: two records are stored, in two requests.\<close>

theorem migration_copies_once_witness:
  "has_indexedDB legacy_env \<and> open_throws legacy_env = None \<and> open_error legacy_env = None \<and>
   idb_lessons legacy_env = [] \<and>
   \<not> truthy (meta_lookup ''migrated'' legacy_env) \<and>
   ls_aiLessons legacy_env = Some [lesson_b, lesson_a] \<and>
   distinct (map lid [lesson_b, lesson_a]) \<and>
   put_error legacy_env lesson_a = None \<and> put_error legacy_env lesson_b = None \<and>
   meta_get_error legacy_env ''migrated'' = None \<and>
   meta_put_error legacy_env ''migrated'' = None \<and>
   migrations legacy_env = [] \<and>
   length (idb_lessons (run_migration legacy_ready)) = 2 \<and>
   meta_lookup ''migrated'' (run_migration legacy_ready) = Value (JBool True) \<and>
   put_log (run_migration legacy_ready) = [lesson_b, lesson_a] \<and>
   migrations (run_migration legacy_ready) = [Ended] \<and>
   put_log (run_migration (snd (init (new_LessonsStorage (run_migration legacy_ready)))))
     = [lesson_b, lesson_a]"
proof -
  have h: "has_indexedDB legacy_env" "open_throws legacy_env = None"
    "open_error legacy_env = None" "idb_lessons legacy_env = []"
    "\<not> truthy (meta_lookup ''migrated'' legacy_env)"
    "ls_aiLessons legacy_env = Some [lesson_b, lesson_a]"
    "distinct (map lid [lesson_b, lesson_a])"
    "\<forall>l\<in>set [lesson_b, lesson_a]. put_error legacy_env l = None"
    "meta_get_error legacy_env ''migrated'' = None"
    "meta_put_error legacy_env ''migrated'' = None"
    "\<forall>m\<in>set (migrations legacy_env). \<not> running m"
    "put_log legacy_env = []" "migrations legacy_env = []"
    by (simp_all add: legacy_env_def quiet_env_def meta_lookup_def lesson_a_def lesson_b_def)
  from migration_copies_once [OF h(1-11)] h show ?thesis
    by (simp add: Let_def legacy_ready_def)
qed

text \<open>
  C3 as stated fails for a second initialization that overlaps the first. Two callers
  enter the fresh component of the browser whose legacy entry holds lessons 2 and 1;
  both open requests are answered with a connection, and each \<^verbatim>\<open>onsuccess\<close> starts a
  migration. Both migrations read the flag before either has set it, and both copy the
  entry: four \<^verbatim>\<open>put\<close> requests for two records. (Both end, and the collection holds the
  two records.) It fails as well when the provider refuses a save (no record is present,
  and the flag is not set), and when the collection is not empty (it holds three
  records, not two).
\<close>

theorem overlapping_initializations_copy_twice:
  "ls_aiLessons legacy_env = Some [lesson_b, lesson_a] \<and>
   map_option put_log
     (run [Enter, Enter, Answer None 1, Answer None 2,
           Migrate 0, Migrate 1, Migrate 0, Migrate 1, Migrate 0, Migrate 1, Migrate 0, Migrate 1]
        (new_LessonsStorage legacy_env))
     = Some [lesson_b, lesson_b, lesson_a, lesson_a] \<and>
   map_option migrations
     (run [Enter, Enter, Answer None 1, Answer None 2,
           Migrate 0, Migrate 1, Migrate 0, Migrate 1, Migrate 0, Migrate 1, Migrate 0, Migrate 1]
        (new_LessonsStorage legacy_env))
     = Some [Ended, Ended] \<and>
   map_option idb_lessons
     (run [Enter, Enter, Answer None 1, Answer None 2,
           Migrate 0, Migrate 1, Migrate 0, Migrate 1, Migrate 0, Migrate 1, Migrate 0, Migrate 1]
        (new_LessonsStorage legacy_env))
     = Some [lesson_a, lesson_b] \<and>
   ls_aiLessons failing_put_ready = Some [lesson_a, lesson_b] \<and>
   idb_lessons (run_migration failing_put_ready) = [] \<and>
   idb_metadata (run_migration failing_put_ready) ''migrated'' = None \<and>
   ls_aiLessons returning_ready = Some [lesson_b, lesson_a] \<and>
   idb_metadata returning_ready ''migrated'' = None \<and>
   idb_lessons (run_migration returning_ready) = [lesson_a, lesson_b, lesson_c]"
proof -
  have overlap:
    "map_option put_log
     (run [Enter, Enter, Answer None 1, Answer None 2,
           Migrate 0, Migrate 1, Migrate 0, Migrate 1, Migrate 0, Migrate 1, Migrate 0, Migrate 1]
        (new_LessonsStorage legacy_env))
     = Some [lesson_b, lesson_b, lesson_a, lesson_a]"
    "map_option migrations
     (run [Enter, Enter, Answer None 1, Answer None 2,
           Migrate 0, Migrate 1, Migrate 0, Migrate 1, Migrate 0, Migrate 1, Migrate 0, Migrate 1]
        (new_LessonsStorage legacy_env))
     = Some [Ended, Ended]"
    "map_option idb_lessons
     (run [Enter, Enter, Answer None 1, Answer None 2,
           Migrate 0, Migrate 1, Migrate 0, Migrate 1, Migrate 0, Migrate 1, Migrate 0, Migrate 1]
        (new_LessonsStorage legacy_env))
     = Some [lesson_a, lesson_b]"
    by (simp_all add: new_LessonsStorage_def legacy_env_def quiet_env_def init_defs
        getMetadata_def saveLesson_def saveMetadata_def transactional_def meta_lookup_def
        continue_copy_def running_def lesson_a_def lesson_b_def)
  have entry: "ls_aiLessons legacy_env = Some [lesson_b, lesson_a]"
    by (simp add: legacy_env_def)
  have failing: "ls_aiLessons failing_put_ready = Some [lesson_a, lesson_b]"
    "idb_lessons (run_migration failing_put_ready) = []"
    "idb_metadata (run_migration failing_put_ready) ''migrated'' = None"
    by (simp_all add: failing_put_ready_def failing_put_env_def new_LessonsStorage_def
        quiet_env_def init_defs run_migration_def running_def steps_left_def ls_array_def
        getMetadata_def saveLesson_def saveMetadata_def transactional_def meta_lookup_def
        continue_copy_def lesson_a_def lesson_b_def)
  have returning: "ls_aiLessons returning_ready = Some [lesson_b, lesson_a]"
    "idb_metadata returning_ready ''migrated'' = None"
    "idb_lessons (run_migration returning_ready) = [lesson_a, lesson_b, lesson_c]"
    by (simp_all add: returning_ready_def returning_env_def new_LessonsStorage_def
        quiet_env_def init_defs run_migration_def running_def steps_left_def ls_array_def
        getMetadata_def saveLesson_def saveMetadata_def transactional_def meta_lookup_def
        continue_copy_def lesson_a_def lesson_b_def lesson_c_def)
  show ?thesis
    unfolding overlap using entry failing returning by simp
qed

section \<open>Saving and reading back\<close>

lemma array_upsert_Nil [simp]: "array_upsert item [] = [item]"
  by (simp add: array_upsert_def)

lemma array_upsert_Cons [simp]:
  "array_upsert item (x # xs) =
     (if lid x = lid item then item # xs else x # array_upsert item xs)"
proof (cases "lid x = lid item")
  case True
  then show ?thesis by (simp add: array_upsert_def)
next
  case False
  show ?thesis
  proof (cases "findIndex (\<lambda>i. lid i = lid item) xs < 0")
    case True
    with False show ?thesis by (simp add: array_upsert_def Let_def)
  next
    case neg: False
    then have "nat (findIndex (\<lambda>i. lid i = lid item) xs + 1)
        = Suc (nat (findIndex (\<lambda>i. lid i = lid item) xs))"
      by simp
    with False neg show ?thesis by (simp add: array_upsert_def Let_def)
  qed
qed








lemma store_put_sorted: "key_sorted ys \<Longrightarrow> key_sorted (store_put x ys)"
  by (induction ys) (auto simp add: key_sorted_def store_put_ids [simplified])













text \<open>On an idle component nothing happens but what callers do.\<close>

lemma idle_fire:
  assumes "idle w" and "fire ev w = Some w'"
  shows "(ev = Enter \<and> w' = w) \<or> (\<exists>c. ev = Call c \<and> w' = perform c w)"
proof (cases ev)
  case Enter
  with assms show ?thesis by (simp add: idle_def init_call_def)
next
  case (Answer outcome h)
  with assms show ?thesis by (simp add: idle_def)
next
  case (Call c)
  with assms show ?thesis by simp
next
  case (Migrate i)
  with assms show ?thesis by (auto simp add: idle_def split: if_splits)
qed







end
